theory Spec2Isabelle
  imports Complex_Main "HOL-Library.Sublist"
begin

section \<open>Values of the host language\<close>

text \<open>
  JavaScript strings are modelled as \<open>string\<close> (a list of characters, one per code unit);
  the functions below treat a string only through equality, length, concatenation and the
  five XML metacharacters, all of which are ASCII.

  A \<open>number\<close> is an IEEE double as far as the program looks at it: it is compared with
  constants and with array lengths, tested for being an integer, and printed. \<open>NaN\<close>
  compares false with everything.
\<close>

datatype number = NaN | NegInf | Fin rat | PosInf

fun num_le :: "number \<Rightarrow> number \<Rightarrow> bool" where
  "num_le NaN _ = False"
| "num_le _ NaN = False"
| "num_le NegInf _ = True"
| "num_le _ PosInf = True"
| "num_le (Fin a) (Fin b) = (a \<le> b)"
| "num_le (Fin a) NegInf = False"
| "num_le PosInf (Fin b) = False"
| "num_le PosInf NegInf = False"

fun num_lt :: "number \<Rightarrow> number \<Rightarrow> bool" where
  "num_lt NaN _ = False"
| "num_lt _ NaN = False"
| "num_lt NegInf NegInf = False"
| "num_lt NegInf _ = True"
| "num_lt PosInf _ = False"
| "num_lt (Fin a) (Fin b) = (a < b)"
| "num_lt (Fin a) PosInf = True"
| "num_lt (Fin a) NegInf = False"

definition num_ge :: "number \<Rightarrow> number \<Rightarrow> bool" where
  "num_ge a b = num_le b a"

definition num_gt :: "number \<Rightarrow> number \<Rightarrow> bool" where
  "num_gt a b = num_lt b a"

definition isNaN :: "number \<Rightarrow> bool" where
  "isNaN n = (n = NaN)"

text \<open>\<open>Number.isInteger\<close>: a finite number with no fractional part.\<close>

fun isInteger :: "number \<Rightarrow> bool" where
  "isInteger (Fin r) = (of_int \<lfloor>r\<rfloor> = r)"
| "isInteger _ = False"

text \<open>The length of an array or string, as a number.\<close>

definition num_of_nat :: "nat \<Rightarrow> number" where
  "num_of_nat n = Fin (of_nat n)"

text \<open>
  A \<open>Date\<close> object holds a time value in milliseconds, or NaN (an "Invalid Date"),
  modelled as \<open>None\<close>.
\<close>

datatype Date = Date (getTime: "int option")

text \<open>A field of type \<open>string | Date\<close>.\<close>

datatype datelike = DateString string | DateObject Date

text \<open>A thrown \<open>Error\<close> carries its message.\<close>

datatype error = Error string

text \<open>The outcome of a call: it returns a value or throws.\<close>

datatype 'a result = Ok 'a | Throw error

text \<open>Truthiness of a string (\<open>if (s)\<close>, \<open>!s\<close>) and of an optional string.\<close>

definition truthy :: "string \<Rightarrow> bool" where
  "truthy s = (s \<noteq> [])"

fun truthy_opt :: "string option \<Rightarrow> bool" where
  "truthy_opt None = False"
| "truthy_opt (Some s) = truthy s"

text \<open>\<open>Array.prototype.join\<close>.\<close>

fun join :: "string \<Rightarrow> string list \<Rightarrow> string" where
  "join sep [] = []"
| "join sep [x] = x"
| "join sep (x # y # ys) = x @ sep @ join sep (y # ys)"

text \<open>\<open>'  '.repeat(n)\<close>.\<close>

definition repeat :: "string \<Rightarrow> nat \<Rightarrow> string" where
  "repeat s n = concat (replicate n s)"

text \<open>
  \<open>String.prototype.replace\<close> with a global regular expression that is a literal,
  non-empty pattern: every non-overlapping occurrence, scanning from the left, is replaced.
\<close>

function replaceAll :: "string \<Rightarrow> string \<Rightarrow> string \<Rightarrow> string" where
  "replaceAll (p # ps) rep [] = []"
| "replaceAll (p # ps) rep (c # cs) =
     (if prefix (p # ps) (c # cs)
      then rep @ replaceAll (p # ps) rep (drop (length (p # ps)) (c # cs))
      else c # replaceAll (p # ps) rep cs)"
| "replaceAll [] rep s = s"
  by pat_completeness auto
termination
  by (relation "measure (\<lambda>(pat, rep, s). length s)") auto

text \<open>\<open>String.prototype.includes\<close>.\<close>

definition str_includes :: "string \<Rightarrow> string \<Rightarrow> bool" where
  "str_includes s sub = sublist sub s"

section \<open>Data model (types/SitemapTypes.ts)\<close>

record SitemapConfig =
  cfg_escaping :: "bool option"
  cfg_validate :: "bool option"
  cfg_maxItems :: "number option"
  cfg_baseUrl :: "string option"
  cfg_pretty :: "bool option"
  cfg_stylesheet :: "string option"
  cfg_namespaces :: "(string \<times> string) list option"

text \<open>\<open>Required<SitemapConfig>\<close>: the configuration a \<open>Model\<close> holds.\<close>

record Config =
  escaping :: bool
  validate :: bool
  maxItems :: number
  baseUrl :: string
  pretty :: bool
  stylesheet :: string
  namespaces :: "(string \<times> string) list"

record ImageItem =
  image_url :: string
  image_title :: "string option"
  image_caption :: "string option"
  image_geo_location :: "string option"
  image_license :: "string option"

record VideoItem =
  video_title :: string
  video_description :: string
  video_thumbnail_url :: string
  video_duration :: "number option"
  video_expiration_date :: "datelike option"
  video_rating :: "number option"
  video_view_count :: "number option"
  video_publication_date :: "datelike option"
  video_family_friendly :: "bool option"
  video_restriction :: "string option"
  video_gallery_loc :: "string option"
  video_price :: "string option"
  video_requires_subscription :: "bool option"
  video_platform :: "string option"
  video_live :: "bool option"

record TranslationItem =
  translation_language :: string
  translation_url :: string

record AlternateItem =
  alternate_media :: "string option"
  alternate_url :: string

record GoogleNewsItem =
  news_sitename :: string
  news_language :: string
  news_publication_date :: datelike
  news_title :: "string option"
  news_keywords :: "string option"
  news_stock_tickers :: "string option"

text \<open>
  \<open>changefreq\<close> has the type of a union of seven string literals; at run time it is a
  string, and the validator checks it against the list of the seven.
\<close>

record SitemapItem =
  loc :: string
  lastmod :: "datelike option"
  priority :: "number option"
  changefreq :: "string option"
  title :: "string option"
  images :: "ImageItem list option"
  videos :: "VideoItem list option"
  item_translations :: "TranslationItem list option"
  alternates :: "AlternateItem list option"
  googlenews :: "GoogleNewsItem option"

record SitemapIndexItem =
  index_loc :: string
  index_lastmod :: "datelike option"

record SitemapAddOptions =
  opt_images :: "ImageItem list option"
  opt_videos :: "VideoItem list option"
  opt_translations :: "TranslationItem list option"
  opt_alternates :: "AlternateItem list option"
  opt_googlenews :: "GoogleNewsItem option"
  opt_title :: "string option"

text \<open>The \<open>value\<close> of a validation error has type \<open>unknown\<close>.\<close>

datatype jsvalue = VUndefined | VString string | VNumber number | VDate Date

fun value_of_datelike :: "datelike \<Rightarrow> jsvalue" where
  "value_of_datelike (DateString s) = VString s"
| "value_of_datelike (DateObject d) = VDate d"

record ValidationError =
  err_type :: string
  err_field :: string
  err_message :: string
  err_value :: jsvalue

record RenderOptions =
  ro_format :: "string option"
  ro_stylesheet :: "string option"
  ro_pretty :: "bool option"
  ro_namespaces :: "(string \<times> string) list option"

section \<open>XML utilities (utils/XmlUtils.ts)\<close>

definition escapeXml :: "string \<Rightarrow> string" where
  \<open>escapeXml text =
     replaceAll [CHR 0x27] ''&#39;''
       (replaceAll ''"'' ''&quot;''
         (replaceAll ''>'' ''&gt;''
           (replaceAll ''<'' ''&lt;''
             (replaceAll ''&'' ''&amp;'' text))))\<close>

definition wrapCDATA :: "string \<Rightarrow> string" where
  \<open>wrapCDATA text =
     (if str_includes text ''&'' \<or> str_includes text ''<'' \<or> str_includes text ''>''
         \<or> str_includes text ''\<newline>''
      then (let escapedText = replaceAll '']]>'' '']]&gt;'' text
            in ''<![CDATA['' @ escapedText @ '']]>'')
      else escapeXml text)\<close>

text \<open>Decimal digits of an array index, as a template literal prints it.\<close>

definition digit_char :: "nat \<Rightarrow> char" where
  "digit_char d = char_of (48 + d)"

function decimal :: "nat \<Rightarrow> string" where
  "decimal n =
     (if n < 10 then [digit_char n] else decimal (n div 10) @ [digit_char (n mod 10)])"
  by pat_completeness auto
termination
  by (relation "measure id") auto

section \<open>The platform\<close>

text \<open>
  The program calls the host's \<open>URL\<close> and \<open>Date\<close> classes and prints numbers and
  dates in template literals. These are not part of the program; they are parameters of the
  model. A \<open>URL\<close> object is the parsed record of the URL standard; \<open>URL_new\<close> is the
  constructor \<open>new URL(url)\<close> or \<open>new URL(url, base)\<close>, with \<open>None\<close> where it throws,
  and \<open>URL_toString\<close> is the serialiser. \<open>Date_parse s\<close> is \<open>new Date(s)\<close>,
  \<open>Date_now\<close> the time value of \<open>new Date()\<close> during the call.
\<close>

record URL =
  protocol :: string
  username :: string
  password :: string
  hostname :: string
  port :: string
  pathname :: string
  query :: "string option"
  fragment :: "string option"

record platform =
  URL_new :: "string \<Rightarrow> string option \<Rightarrow> URL option"
  URL_toString :: "URL \<Rightarrow> string"
  Date_parse :: "string \<Rightarrow> Date"
  Date_now :: int
  Date_toISOString :: "int \<Rightarrow> string"
  Date_toString :: "Date \<Rightarrow> string"
  Number_toString :: "number \<Rightarrow> string"

text \<open>A \<open>string | Date\<close> value inside a template literal.\<close>

fun datelike_toString :: "platform \<Rightarrow> datelike \<Rightarrow> string" where
  "datelike_toString P (DateString s) = s"
| "datelike_toString P (DateObject d) = Date_toString P d"

text \<open>Truthiness of a \<open>string | Date\<close> value: an object is always truthy.\<close>

fun truthy_datelike :: "datelike option \<Rightarrow> bool" where
  "truthy_datelike None = False"
| "truthy_datelike (Some (DateString s)) = truthy s"
| "truthy_datelike (Some (DateObject d)) = True"

section \<open>URL validation (validators/UrlValidator.ts)\<close>

definition isValidUrl :: "platform \<Rightarrow> string \<Rightarrow> bool" where
  "isValidUrl P url =
     (if \<not> truthy url then False
      else case URL_new P url None of
        None \<Rightarrow> False
      | Some urlObj \<Rightarrow>
          if protocol urlObj \<notin> set [''http:'', ''https:''] then False
          else if \<not> truthy (hostname urlObj) then False
          else if length url > 2048 then False
          else True)"

definition normalizeUrl :: "platform \<Rightarrow> string \<Rightarrow> string" where
  "normalizeUrl P url =
     (if \<not> isValidUrl P url then url
      else case URL_new P url None of
        None \<Rightarrow> url
      | Some urlObj0 \<Rightarrow>
          (let urlObj1 = urlObj0\<lparr>fragment := None\<rparr>;
               urlObj2 = (if pathname urlObj1 = [] \<or> pathname urlObj1 = ''/''
                          then urlObj1\<lparr>pathname := ''/''\<rparr> else urlObj1)
           in URL_toString P urlObj2))"

definition resolveUrl :: "platform \<Rightarrow> string \<Rightarrow> string \<Rightarrow> string" where
  "resolveUrl P url base =
     (if \<not> truthy url then url
      else if isValidUrl P url then url
      else case URL_new P url (Some base) of
        None \<Rightarrow> url
      | Some resolved \<Rightarrow> URL_toString P resolved)"

section \<open>Date utilities (utils/DateUtils.ts)\<close>

fun formatDate :: "platform \<Rightarrow> datelike \<Rightarrow> string result" where
  "formatDate P (DateString s) =
     (case getTime (Date_parse P s) of
        None \<Rightarrow> Throw (Error (''Invalid date string: '' @ s))
      | Some t \<Rightarrow> Ok (Date_toISOString P t))"
| "formatDate P (DateObject d) =
     (case getTime d of
        None \<Rightarrow> Throw (Error ''Invalid Date object'')
      | Some t \<Rightarrow> Ok (Date_toISOString P t))"

definition isValidDate :: "platform \<Rightarrow> string \<Rightarrow> bool" where
  "isValidDate P dateString = (getTime (Date_parse P dateString) \<noteq> None)"

text \<open>\<open>dateObj <= now\<close> compares the two time values; an invalid date compares false.\<close>

definition isValidLastModDate :: "platform \<Rightarrow> datelike \<Rightarrow> bool" where
  "isValidLastModDate P date =
     (let dateObj = (case date of DateString s \<Rightarrow> Date_parse P s | DateObject d \<Rightarrow> d)
      in case getTime dateObj of None \<Rightarrow> False | Some t \<Rightarrow> t \<le> Date_now P)"

section \<open>The validator (validators/DataValidator.ts)\<close>

definition VALID_FREQUENCIES :: "string list" where
  "VALID_FREQUENCIES =
     [''always'', ''hourly'', ''daily'', ''weekly'', ''monthly'', ''yearly'', ''never'']"

definition isValidPriority :: "number \<Rightarrow> bool" where
  "isValidPriority p = (num_ge p (Fin 0) \<and> num_le p (Fin 1) \<and> \<not> isNaN p)"

fun validator_isValidDate :: "platform \<Rightarrow> datelike \<Rightarrow> bool" where
  "validator_isValidDate P (DateObject d) = (getTime d \<noteq> None)"
| "validator_isValidDate P (DateString s) = isValidDate P s"

definition isValidChangeFreq :: "string \<Rightarrow> bool" where
  "isValidChangeFreq freq = (freq \<in> set VALID_FREQUENCIES)"

definition mk_error :: "string \<Rightarrow> string \<Rightarrow> string \<Rightarrow> jsvalue \<Rightarrow> ValidationError" where
  "mk_error t f m v = \<lparr>err_type = t, err_field = f, err_message = m, err_value = v\<rparr>"

definition validateImageItem :: "platform \<Rightarrow> ImageItem \<Rightarrow> ValidationError list" where
  "validateImageItem P img =
     (if \<not> truthy (image_url img)
      then [mk_error ''required'' ''image.url'' ''Image URL is required''
              (VString (image_url img))]
      else if \<not> isValidUrl P (image_url img)
      then [mk_error ''url'' ''image.url'' ''Image URL is not valid''
              (VString (image_url img))]
      else [])"

definition validateVideoItem :: "platform \<Rightarrow> VideoItem \<Rightarrow> ValidationError list" where
  "validateVideoItem P video =
     (if \<not> truthy (video_title video)
      then [mk_error ''required'' ''video.title'' ''Video title is required''
              (VString (video_title video))]
      else [])
     @ (if \<not> truthy (video_description video)
        then [mk_error ''required'' ''video.description'' ''Video description is required''
                (VString (video_description video))]
        else [])
     @ (if \<not> truthy (video_thumbnail_url video)
        then [mk_error ''required'' ''video.thumbnail_url'' ''Video thumbnail URL is required''
                (VString (video_thumbnail_url video))]
        else if \<not> isValidUrl P (video_thumbnail_url video)
        then [mk_error ''url'' ''video.thumbnail_url'' ''Video thumbnail URL is not valid''
                (VString (video_thumbnail_url video))]
        else [])
     @ (case video_duration video of
          None \<Rightarrow> []
        | Some d \<Rightarrow>
            if num_lt d (Fin 0) \<or> \<not> isInteger d
            then [mk_error ''format'' ''video.duration''
                    ''Video duration must be a positive integer (seconds)'' (VNumber d)]
            else [])
     @ (case video_rating video of
          None \<Rightarrow> []
        | Some r \<Rightarrow>
            if num_lt r (Fin 0) \<or> num_gt r (Fin 5)
            then [mk_error ''format'' ''video.rating''
                    ''Video rating must be between 0.0 and 5.0'' (VNumber r)]
            else [])"

definition validateTranslationItem :: "platform \<Rightarrow> TranslationItem \<Rightarrow> ValidationError list"
  where
  "validateTranslationItem P translation =
     (if \<not> truthy (translation_language translation)
      then [mk_error ''required'' ''translation.language'' ''Translation language is required''
              (VString (translation_language translation))]
      else [])
     @ (if \<not> truthy (translation_url translation)
        then [mk_error ''required'' ''translation.url'' ''Translation URL is required''
                (VString (translation_url translation))]
        else if \<not> isValidUrl P (translation_url translation)
        then [mk_error ''url'' ''translation.url'' ''Translation URL is not valid''
                (VString (translation_url translation))]
        else [])"

definition validateAlternateItem :: "platform \<Rightarrow> AlternateItem \<Rightarrow> ValidationError list" where
  "validateAlternateItem P alternate =
     (if \<not> truthy (alternate_url alternate)
      then [mk_error ''required'' ''alternate.url'' ''Alternate URL is required''
              (VString (alternate_url alternate))]
      else if \<not> isValidUrl P (alternate_url alternate)
      then [mk_error ''url'' ''alternate.url'' ''Alternate URL is not valid''
              (VString (alternate_url alternate))]
      else [])"

definition validateGoogleNewsItem :: "platform \<Rightarrow> GoogleNewsItem \<Rightarrow> ValidationError list" where
  "validateGoogleNewsItem P news =
     (if \<not> truthy (news_sitename news)
      then [mk_error ''required'' ''googlenews.sitename'' ''Google News sitename is required''
              (VString (news_sitename news))]
      else [])
     @ (if \<not> truthy (news_language news)
        then [mk_error ''required'' ''googlenews.language'' ''Google News language is required''
                (VString (news_language news))]
        else [])
     @ (if \<not> truthy_datelike (Some (news_publication_date news))
        then [mk_error ''required'' ''googlenews.publication_date''
                ''Google News publication date is required''
                (value_of_datelike (news_publication_date news))]
        else if \<not> validator_isValidDate P (news_publication_date news)
        then [mk_error ''date'' ''googlenews.publication_date''
                ''Google News publication date is not valid''
                (value_of_datelike (news_publication_date news))]
        else [])"

text \<open>
  \<open>xs.forEach((x, index) => errors.push(...validate(x).map(e => ({...e, field:
  `name[${index}].${e.field}`}))))\<close>: the errors of every element, each field prefixed
  with the element's position.
\<close>

definition indexed_errors ::
  "string \<Rightarrow> ('a \<Rightarrow> ValidationError list) \<Rightarrow> 'a list \<Rightarrow> ValidationError list" where
  "indexed_errors name validate_one xs =
     concat (map (\<lambda>(index, x).
                map (\<lambda>e. e\<lparr>err_field := name @ ''['' @ decimal index @ ''].'' @ err_field e\<rparr>)
                    (validate_one x))
             (zip [0..<length xs] xs))"

definition validateItem :: "platform \<Rightarrow> SitemapItem \<Rightarrow> ValidationError list" where
  "validateItem P item =
     (if \<not> truthy (loc item)
      then [mk_error ''required'' ''loc'' ''URL (loc) is required'' (VString (loc item))]
      else if \<not> isValidUrl P (loc item)
      then [mk_error ''url'' ''loc'' ''URL (loc) is not valid'' (VString (loc item))]
      else [])
     @ (case priority item of
          None \<Rightarrow> []
        | Some p \<Rightarrow>
            if \<not> isValidPriority p
            then [mk_error ''priority'' ''priority''
                    ''Priority must be a number between 0.0 and 1.0'' (VNumber p)]
            else [])
     @ (case lastmod item of
          None \<Rightarrow> []
        | Some d \<Rightarrow>
            if \<not> validator_isValidDate P d
            then [mk_error ''date'' ''lastmod'' ''Last modification date is not valid''
                    (value_of_datelike d)]
            else if \<not> isValidLastModDate P d
            then [mk_error ''date'' ''lastmod''
                    ''Last modification date cannot be in the future'' (value_of_datelike d)]
            else [])
     @ (case changefreq item of
          None \<Rightarrow> []
        | Some f \<Rightarrow>
            if \<not> isValidChangeFreq f
            then [mk_error ''format'' ''changefreq''
                    (''Change frequency must be one of: '' @ join '', '' VALID_FREQUENCIES)
                    (VString f)]
            else [])
     @ (case images item of
          None \<Rightarrow> []
        | Some xs \<Rightarrow> indexed_errors ''images'' (validateImageItem P) xs)
     @ (case videos item of
          None \<Rightarrow> []
        | Some xs \<Rightarrow> indexed_errors ''videos'' (validateVideoItem P) xs)
     @ (case item_translations item of
          None \<Rightarrow> []
        | Some xs \<Rightarrow> indexed_errors ''translations'' (validateTranslationItem P) xs)
     @ (case alternates item of
          None \<Rightarrow> []
        | Some xs \<Rightarrow> indexed_errors ''alternates'' (validateAlternateItem P) xs)
     @ (case googlenews item of
          None \<Rightarrow> []
        | Some news \<Rightarrow> validateGoogleNewsItem P news)"

section \<open>The model (sitemap/Model.ts)\<close>

definition DEFAULT_CONFIG :: Config where
  "DEFAULT_CONFIG =
     \<lparr>escaping = True, validate = True, maxItems = Fin 50000, baseUrl = [],
      pretty = False, stylesheet = [], namespaces = []\<rparr>"

text \<open>\<open>{ ...DEFAULT_CONFIG, ...config }\<close>: the keys the caller gives override the defaults.\<close>

definition merge_config :: "Config \<Rightarrow> SitemapConfig \<Rightarrow> Config" where
  "merge_config d c =
     \<lparr>escaping = (case cfg_escaping c of None \<Rightarrow> escaping d | Some v \<Rightarrow> v),
      validate = (case cfg_validate c of None \<Rightarrow> validate d | Some v \<Rightarrow> v),
      maxItems = (case cfg_maxItems c of None \<Rightarrow> maxItems d | Some v \<Rightarrow> v),
      baseUrl = (case cfg_baseUrl c of None \<Rightarrow> baseUrl d | Some v \<Rightarrow> v),
      pretty = (case cfg_pretty c of None \<Rightarrow> pretty d | Some v \<Rightarrow> v),
      stylesheet = (case cfg_stylesheet c of None \<Rightarrow> stylesheet d | Some v \<Rightarrow> v),
      namespaces = (case cfg_namespaces c of None \<Rightarrow> namespaces d | Some v \<Rightarrow> v)\<rparr>"

text \<open>The empty configuration object \<open>{}\<close>, the default argument of the constructors.\<close>

definition empty_config :: SitemapConfig where
  "empty_config =
     \<lparr>cfg_escaping = None, cfg_validate = None, cfg_maxItems = None, cfg_baseUrl = None,
      cfg_pretty = None, cfg_stylesheet = None, cfg_namespaces = None\<rparr>"

record Model =
  items :: "SitemapItem list"
  sitemaps :: "SitemapIndexItem list"
  config :: Config

definition Model_new :: "SitemapConfig \<Rightarrow> Model" where
  "Model_new c = \<lparr>items = [], sitemaps = [], config = merge_config DEFAULT_CONFIG c\<rparr>"

definition Model_addItem :: "Model \<Rightarrow> SitemapItem \<Rightarrow> Model" where
  "Model_addItem m item = m\<lparr>items := items m @ [item]\<rparr>"

definition Model_getItems :: "Model \<Rightarrow> SitemapItem list" where
  "Model_getItems m = items m"

definition Model_clear :: "Model \<Rightarrow> Model" where
  "Model_clear m = m\<lparr>items := []\<rparr>"

definition Model_getConfig :: "Model \<Rightarrow> Config" where
  "Model_getConfig m = config m"

definition Model_getItemCount :: "Model \<Rightarrow> nat" where
  "Model_getItemCount m = length (items m)"

definition Model_shouldSplit :: "Model \<Rightarrow> bool" where
  "Model_shouldSplit m = num_ge (num_of_nat (length (items m))) (maxItems (config m))"

section \<open>The sitemap (sitemap/Sitemap.ts)\<close>

text \<open>
  A \<open>Sitemap\<close> owns a \<open>Model\<close> (its validator has no state). A method that mutates
  returns the sitemap after the call together with its outcome: when it throws, the sitemap
  is the one the caller still holds.
\<close>

record Sitemap =
  model :: Model

definition Sitemap_new :: "SitemapConfig \<Rightarrow> Sitemap" where
  "Sitemap_new c = \<lparr>model = Model_new c\<rparr>"

text \<open>\<open>errors.map(error => `${error.field}: ${error.message}`).join(', ')\<close>\<close>

definition errorMessages :: "ValidationError list \<Rightarrow> string" where
  "errorMessages errors = join '', '' (map (\<lambda>e. err_field e @ '': '' @ err_message e) errors)"

text \<open>Lines 59 to 84 of \<open>add\<close>: the record it builds, unless formatting the date throws.\<close>

definition add_item :: "platform \<Rightarrow> Config \<Rightarrow> string \<Rightarrow> datelike option \<Rightarrow> number option
    \<Rightarrow> string option \<Rightarrow> SitemapAddOptions \<Rightarrow> SitemapItem result" where
  "add_item P cfg url lastmod_arg priority_arg changefreq_arg options =
     (let normalizedUrl0 = normalizeUrl P url;
          normalizedUrl = (if truthy (baseUrl cfg) \<and> \<not> isValidUrl P normalizedUrl0
                           then resolveUrl P url (baseUrl cfg) else normalizedUrl0);
          item0 = \<lparr>loc = normalizedUrl, lastmod = None, priority = None, changefreq = None,
                   title = opt_title options, images = opt_images options,
                   videos = opt_videos options, item_translations = opt_translations options,
                   alternates = opt_alternates options, googlenews = opt_googlenews options\<rparr>;
          with_lastmod =
            (case lastmod_arg of
               None \<Rightarrow> Ok item0
             | Some (DateString s) \<Rightarrow> Ok (item0\<lparr>lastmod := Some (DateString s)\<rparr>)
             | Some (DateObject d) \<Rightarrow>
                 (case formatDate P (DateObject d) of
                    Throw e \<Rightarrow> Throw e
                  | Ok s \<Rightarrow> Ok (item0\<lparr>lastmod := Some (DateString s)\<rparr>)))
      in case with_lastmod of
           Throw e \<Rightarrow> Throw e
         | Ok item1 \<Rightarrow>
             (let item2 = (case priority_arg of None \<Rightarrow> item1
                           | Some p \<Rightarrow> item1\<lparr>priority := Some p\<rparr>);
                  item3 = (case changefreq_arg of None \<Rightarrow> item2
                           | Some f \<Rightarrow> item2\<lparr>changefreq := Some f\<rparr>)
              in Ok item3))"

definition add :: "platform \<Rightarrow> Sitemap \<Rightarrow> string \<Rightarrow> datelike option \<Rightarrow> number option
    \<Rightarrow> string option \<Rightarrow> SitemapAddOptions \<Rightarrow> unit result \<times> Sitemap" where
  "add P S url lastmod_arg priority_arg changefreq_arg options =
     (let cfg = Model_getConfig (model S)
      in case add_item P cfg url lastmod_arg priority_arg changefreq_arg options of
           Throw e \<Rightarrow> (Throw e, S)
         | Ok item \<Rightarrow>
             if validate cfg \<and> length (validateItem P item) > 0
             then (Throw (Error (''Validation failed: '' @ errorMessages (validateItem P item))), S)
             else (Ok (), S\<lparr>model := Model_addItem (model S) item\<rparr>))"

text \<open>The argument of \<open>addItem\<close> is one record or an array of records.\<close>

datatype SitemapItemInput = Single SitemapItem | Many "SitemapItem list"

text \<open>Lines 110 to 125 of \<open>addItem\<close>: the processed record of one element of the batch.\<close>

definition processItem :: "platform \<Rightarrow> Config \<Rightarrow> SitemapItem \<Rightarrow> SitemapItem result" where
  "processItem P cfg item =
     (let normalizedUrl0 = normalizeUrl P (loc item);
          normalizedUrl = (if truthy (baseUrl cfg) \<and> \<not> isValidUrl P normalizedUrl0
                           then resolveUrl P (loc item) (baseUrl cfg) else normalizedUrl0);
          processedItem = item\<lparr>loc := normalizedUrl\<rparr>
      in case lastmod processedItem of
           Some (DateObject d) \<Rightarrow>
             (case formatDate P (DateObject d) of
                Throw e \<Rightarrow> Throw e
              | Ok s \<Rightarrow> Ok (processedItem\<lparr>lastmod := Some (DateString s)\<rparr>))
         | _ \<Rightarrow> Ok processedItem)"

text \<open>The loop of \<open>addItem\<close>: a throw leaves the loop with the records stored so far.\<close>

fun addItem_loop :: "platform \<Rightarrow> Config \<Rightarrow> Sitemap \<Rightarrow> SitemapItem list
    \<Rightarrow> unit result \<times> Sitemap" where
  "addItem_loop P cfg S [] = (Ok (), S)"
| "addItem_loop P cfg S (item # rest) =
     (case processItem P cfg item of
        Throw e \<Rightarrow> (Throw e, S)
      | Ok processedItem \<Rightarrow>
          if validate cfg \<and> length (validateItem P processedItem) > 0
          then (Throw (Error (''Validation failed for '' @ loc processedItem @ '': ''
                               @ errorMessages (validateItem P processedItem))), S)
          else addItem_loop P cfg (S\<lparr>model := Model_addItem (model S) processedItem\<rparr>) rest)"

definition addItem :: "platform \<Rightarrow> Sitemap \<Rightarrow> SitemapItemInput \<Rightarrow> unit result \<times> Sitemap" where
  "addItem P S input =
     (let itemsArray = (case input of Many xs \<Rightarrow> xs | Single x \<Rightarrow> [x]);
          cfg = Model_getConfig (model S)
      in addItem_loop P cfg S itemsArray)"

definition getItems :: "Sitemap \<Rightarrow> SitemapItem list" where
  "getItems S = Model_getItems (model S)"

definition getItemCount :: "Sitemap \<Rightarrow> nat" where
  "getItemCount S = Model_getItemCount (model S)"

definition clear :: "Sitemap \<Rightarrow> Sitemap" where
  "clear S = S\<lparr>model := Model_clear (model S)\<rparr>"

definition removeItems :: "Sitemap \<Rightarrow> (SitemapItem \<Rightarrow> bool) \<Rightarrow> Sitemap" where
  "removeItems S predicate =
     (let filteredItems = filter (\<lambda>item. \<not> predicate item) (Model_getItems (model S))
      in S\<lparr>model := foldl Model_addItem (Model_clear (model S)) filteredItems\<rparr>)"

definition shouldSplit :: "Sitemap \<Rightarrow> bool" where
  "shouldSplit S = Model_shouldSplit (model S)"

text \<open>The private \<open>escapeXml\<close> of the sitemap reads the configuration first.\<close>

definition Sitemap_escapeXml :: "Sitemap \<Rightarrow> string \<Rightarrow> string" where
  \<open>Sitemap_escapeXml S text =
     (let cfg = Model_getConfig (model S)
      in if \<not> escaping cfg then text
         else replaceAll [CHR 0x27] ''&#39;''
                (replaceAll ''"'' ''&quot;''
                  (replaceAll ''>'' ''&gt;''
                    (replaceAll ''<'' ''&lt;''
                      (replaceAll ''&'' ''&amp;'' text)))))\<close>

text \<open>The private \<open>formatDate\<close> of the sitemap.\<close>

fun Sitemap_formatDate :: "platform \<Rightarrow> datelike \<Rightarrow> string result" where
  "Sitemap_formatDate P (DateString s) = Ok s"
| "Sitemap_formatDate P (DateObject d) = formatDate P (DateObject d)"

text \<open>The bodies of the four loops of \<open>renderSitemapItem\<close>: what one element appends.\<close>

definition renderImage :: "Sitemap \<Rightarrow> string \<Rightarrow> ImageItem \<Rightarrow> string" where
  \<open>renderImage S indentStr img =
     indentStr @ ''  <image:image>\<newline>''
     @ indentStr @ ''    <image:loc>'' @ Sitemap_escapeXml S (image_url img) @ ''</image:loc>\<newline>''
     @ (if truthy_opt (image_title img)
        then indentStr @ ''    <image:title>'' @ Sitemap_escapeXml S (the (image_title img))
             @ ''</image:title>\<newline>''
        else [])
     @ (if truthy_opt (image_caption img)
        then indentStr @ ''    <image:caption>'' @ Sitemap_escapeXml S (the (image_caption img))
             @ ''</image:caption>\<newline>''
        else [])
     @ indentStr @ ''  </image:image>\<newline>''\<close>

definition renderVideo :: "platform \<Rightarrow> Sitemap \<Rightarrow> string \<Rightarrow> VideoItem \<Rightarrow> string" where
  \<open>renderVideo P S indentStr video =
     indentStr @ ''  <video:video>\<newline>''
     @ indentStr @ ''    <video:thumbnail_loc>'' @ Sitemap_escapeXml S (video_thumbnail_url video)
       @ ''</video:thumbnail_loc>\<newline>''
     @ indentStr @ ''    <video:title><![CDATA['' @ video_title video
       @ '']]></video:title>\<newline>''
     @ indentStr @ ''    <video:description><![CDATA['' @ video_description video
       @ '']]></video:description>\<newline>''
     @ (case video_duration video of
          None \<Rightarrow> []
        | Some d \<Rightarrow> indentStr @ ''    <video:duration>'' @ Number_toString P d
                    @ ''</video:duration>\<newline>'')
     @ indentStr @ ''  </video:video>\<newline>''\<close>

definition renderTranslation :: "Sitemap \<Rightarrow> string \<Rightarrow> TranslationItem \<Rightarrow> string" where
  \<open>renderTranslation S indentStr tr =
     indentStr @ ''  <xhtml:link rel="alternate" hreflang="'' @ translation_language tr
     @ ''" href="'' @ Sitemap_escapeXml S (translation_url tr) @ ''" />\<newline>''\<close>

definition renderAlternate :: "Sitemap \<Rightarrow> string \<Rightarrow> AlternateItem \<Rightarrow> string" where
  \<open>renderAlternate S indentStr alt =
     (let media = (if truthy_opt (alternate_media alt)
                   then '' media="'' @ the (alternate_media alt) @ ''"'' else [])
      in indentStr @ ''  <xhtml:link rel="alternate"'' @ media @ '' href="''
         @ Sitemap_escapeXml S (alternate_url alt) @ ''" />\<newline>'')\<close>

text \<open>
  \<open>renderSitemapItem\<close> throws only through the publication date of the news block, which
  comes last; everything before it is appended to \<open>xml\<close> in the order of the source.
\<close>

definition renderSitemapItem :: "platform \<Rightarrow> Sitemap \<Rightarrow> SitemapItem \<Rightarrow> nat \<Rightarrow> string result"
  where
  \<open>renderSitemapItem P S item indent =
     (let indentStr = repeat ''  '' indent;
          xml0 = indentStr @ ''<url>\<newline>'';
          xml1 = xml0 @ indentStr @ ''  <loc>'' @ Sitemap_escapeXml S (loc item) @ ''</loc>\<newline>'';
          xml2 = (if truthy_datelike (lastmod item)
                  then xml1 @ indentStr @ ''  <lastmod>''
                       @ datelike_toString P (the (lastmod item)) @ ''</lastmod>\<newline>''
                  else xml1);
          xml3 = (if truthy_opt (changefreq item)
                  then xml2 @ indentStr @ ''  <changefreq>'' @ the (changefreq item)
                       @ ''</changefreq>\<newline>''
                  else xml2);
          xml4 = (case priority item of
                    None \<Rightarrow> xml3
                  | Some p \<Rightarrow> xml3 @ indentStr @ ''  <priority>'' @ Number_toString P p
                              @ ''</priority>\<newline>'');
          xml5 = (case images item of
                    None \<Rightarrow> xml4
                  | Some xs \<Rightarrow> foldl (\<lambda>xml img. xml @ renderImage S indentStr img) xml4 xs);
          xml6 = (case videos item of
                    None \<Rightarrow> xml5
                  | Some xs \<Rightarrow> foldl (\<lambda>xml video. xml @ renderVideo P S indentStr video) xml5 xs);
          xml7 = (case item_translations item of
                    None \<Rightarrow> xml6
                  | Some xs \<Rightarrow>
                      foldl (\<lambda>xml tr. xml @ renderTranslation S indentStr tr) xml6 xs);
          xml8 = (case alternates item of
                    None \<Rightarrow> xml7
                  | Some xs \<Rightarrow> foldl (\<lambda>xml alt. xml @ renderAlternate S indentStr alt) xml7 xs)
      in case googlenews item of
           None \<Rightarrow> Ok (xml8 @ indentStr @ ''</url>\<newline>'')
         | Some news \<Rightarrow>
             (case Sitemap_formatDate P (news_publication_date news) of
                Throw e \<Rightarrow> Throw e
              | Ok publication_date \<Rightarrow>
                  Ok (xml8
                      @ indentStr @ ''  <news:news>\<newline>''
                      @ indentStr @ ''    <news:publication>\<newline>''
                      @ indentStr @ ''      <news:name>''
                        @ Sitemap_escapeXml S (news_sitename news) @ ''</news:name>\<newline>''
                      @ indentStr @ ''      <news:language>'' @ news_language news
                        @ ''</news:language>\<newline>''
                      @ indentStr @ ''    </news:publication>\<newline>''
                      @ indentStr @ ''    <news:publication_date>'' @ publication_date
                        @ ''</news:publication_date>\<newline>''
                      @ (if truthy_opt (news_title news)
                         then indentStr @ ''    <news:title>''
                              @ Sitemap_escapeXml S (the (news_title news))
                              @ ''</news:title>\<newline>''
                         else [])
                      @ indentStr @ ''  </news:news>\<newline>''
                      @ indentStr @ ''</url>\<newline>'')))\<close>

text \<open>The loop of \<open>toXML\<close> over the records: the first record that throws ends it.\<close>

fun renderItems :: "platform \<Rightarrow> Sitemap \<Rightarrow> nat \<Rightarrow> string \<Rightarrow> SitemapItem list \<Rightarrow> string result"
  where
  "renderItems P S indent xml [] = Ok xml"
| "renderItems P S indent xml (item # rest) =
     (case renderSitemapItem P S item indent of
        Throw e \<Rightarrow> Throw e
      | Ok s \<Rightarrow> renderItems P S indent (xml @ s) rest)"

text \<open>
  Lines 279 to 283 of \<open>toXML\<close>: the XML declaration and the optional stylesheet
  instruction.
\<close>

definition xmlProlog :: "Sitemap \<Rightarrow> string \<Rightarrow> string" where
  \<open>xmlProlog S stylesheet_opt =
     (let xml = ''<?xml version="1.0" encoding="UTF-8"?>\<newline>''
      in if truthy stylesheet_opt
         then xml @ ''<?xml-stylesheet href="'' @ Sitemap_escapeXml S stylesheet_opt
              @ ''" type="text/xsl"?>\<newline>''
         else xml)\<close>

text \<open>
  Lines 285 to 307 of \<open>toXML\<close>: the start tag of the root element, with the namespace
  declarations the records call for.
\<close>

definition urlsetStartTag :: "SitemapItem list \<Rightarrow> string" where
  \<open>urlsetStartTag its =
     (let xml0 = ''<urlset xmlns="http://www.sitemaps.org/schemas/sitemap/0.9"'';
          hasImages = list_ex (\<lambda>item. case images item of
                                 None \<Rightarrow> False | Some xs \<Rightarrow> length xs > 0) its;
          hasVideos = list_ex (\<lambda>item. case videos item of
                                 None \<Rightarrow> False | Some xs \<Rightarrow> length xs > 0) its;
          hasTranslations = list_ex (\<lambda>item. case item_translations item of
                                 None \<Rightarrow> False | Some xs \<Rightarrow> length xs > 0) its;
          hasAlternates = list_ex (\<lambda>item. case alternates item of
                                 None \<Rightarrow> False | Some xs \<Rightarrow> length xs > 0) its;
          hasGoogleNews = list_ex (\<lambda>item. googlenews item \<noteq> None) its;
          xml1 = (if hasImages
                  then xml0 @ '' xmlns:image="http://www.google.com/schemas/sitemap-image/1.1"''
                  else xml0);
          xml2 = (if hasVideos
                  then xml1 @ '' xmlns:video="http://www.google.com/schemas/sitemap-video/1.1"''
                  else xml1);
          xml3 = (if hasTranslations \<or> hasAlternates
                  then xml2 @ '' xmlns:xhtml="http://www.w3.org/1999/xhtml"''
                  else xml2);
          xml4 = (if hasGoogleNews
                  then xml3 @ '' xmlns:news="http://www.google.com/schemas/sitemap-news/0.9"''
                  else xml3)
      in xml4 @ ''>\<newline>'')\<close>

definition toXML :: "platform \<Rightarrow> Sitemap \<Rightarrow> RenderOptions \<Rightarrow> string result" where
  \<open>toXML P S options =
     (let its = Model_getItems (model S);
          cfg = Model_getConfig (model S);
          pretty_opt = (case ro_pretty options of Some b \<Rightarrow> b | None \<Rightarrow> pretty cfg);
          stylesheet_opt = (case ro_stylesheet options of Some s \<Rightarrow> s
                            | None \<Rightarrow> stylesheet cfg);
          xml = xmlProlog S stylesheet_opt @ urlsetStartTag its
      in case renderItems P S (if pretty_opt then 1 else 0) xml its of
           Throw e \<Rightarrow> Throw e
         | Ok xml' \<Rightarrow> Ok (xml' @ ''</urlset>''))\<close>

text \<open>The options object \<open>{}\<close>, the default argument of the renderers.\<close>

definition empty_options :: RenderOptions where
  "empty_options =
     \<lparr>ro_format = None, ro_stylesheet = None, ro_pretty = None, ro_namespaces = None\<rparr>"

definition render :: "platform \<Rightarrow> Sitemap \<Rightarrow> string \<Rightarrow> RenderOptions \<Rightarrow> string result" where
  "render P S format options =
     (if format \<noteq> ''xml''
      then Throw (Error (''Format '' @ [CHR 0x27] @ format @ [CHR 0x27]
                         @ '' not yet implemented. Currently only ''
                         @ [CHR 0x27] @ ''xml'' @ [CHR 0x27] @ '' is supported.''))
      else toXML P S options)"

section \<open>The sitemap index (class SitemapIndex)\<close>

record SitemapIndexConfig =
  icfg_baseUrl :: "string option"
  icfg_validate :: "bool option"
  icfg_escaping :: "bool option"
  icfg_pretty :: "bool option"
  icfg_stylesheet :: "string option"
  icfg_maxSitemaps :: "number option"

record IndexConfig =
  index_validate :: bool
  index_escaping :: bool
  index_pretty :: bool
  index_baseUrl :: string
  index_stylesheet :: string
  maxSitemaps :: number

definition INDEX_DEFAULT_CONFIG :: IndexConfig where
  "INDEX_DEFAULT_CONFIG =
     \<lparr>index_validate = True, index_escaping = True, index_pretty = True, index_baseUrl = [],
      index_stylesheet = [], maxSitemaps = Fin 50000\<rparr>"

definition merge_index_config :: "IndexConfig \<Rightarrow> SitemapIndexConfig \<Rightarrow> IndexConfig" where
  "merge_index_config d c =
     \<lparr>index_validate = (case icfg_validate c of None \<Rightarrow> index_validate d | Some v \<Rightarrow> v),
      index_escaping = (case icfg_escaping c of None \<Rightarrow> index_escaping d | Some v \<Rightarrow> v),
      index_pretty = (case icfg_pretty c of None \<Rightarrow> index_pretty d | Some v \<Rightarrow> v),
      index_baseUrl = (case icfg_baseUrl c of None \<Rightarrow> index_baseUrl d | Some v \<Rightarrow> v),
      index_stylesheet = (case icfg_stylesheet c of None \<Rightarrow> index_stylesheet d
                          | Some v \<Rightarrow> v),
      maxSitemaps = (case icfg_maxSitemaps c of None \<Rightarrow> maxSitemaps d | Some v \<Rightarrow> v)\<rparr>"

definition empty_index_config :: SitemapIndexConfig where
  "empty_index_config =
     \<lparr>icfg_baseUrl = None, icfg_validate = None, icfg_escaping = None, icfg_pretty = None,
      icfg_stylesheet = None, icfg_maxSitemaps = None\<rparr>"

record SitemapIndex =
  index_items :: "SitemapIndexItem list"
  index_config :: IndexConfig

definition SitemapIndex_new :: "SitemapIndexConfig \<Rightarrow> SitemapIndex" where
  "SitemapIndex_new c =
     \<lparr>index_items = [], index_config = merge_index_config INDEX_DEFAULT_CONFIG c\<rparr>"

definition validateSitemapItem :: "platform \<Rightarrow> SitemapIndexItem \<Rightarrow> ValidationError list" where
  "validateSitemapItem P item =
     (if \<not> isValidUrl P (index_loc item)
      then [mk_error ''url'' ''loc'' ''Invalid URL format'' (VString (index_loc item))]
      else [])
     @ (case index_lastmod item of
          Some (DateString s) \<Rightarrow>
            if truthy s \<and> getTime (Date_parse P s) = None
            then [mk_error ''date'' ''lastmod'' ''Invalid date format'' (VString s)]
            else []
        | _ \<Rightarrow> [])"

definition addSitemap :: "platform \<Rightarrow> SitemapIndex \<Rightarrow> string \<Rightarrow> datelike option
    \<Rightarrow> unit result \<times> SitemapIndex" where
  "addSitemap P I loc_arg lastmod_arg =
     (let cfg = index_config I;
          normalizedUrl0 = normalizeUrl P loc_arg;
          normalizedUrl = (if truthy (index_baseUrl cfg) \<and> \<not> isValidUrl P normalizedUrl0
                           then resolveUrl P loc_arg (index_baseUrl cfg) else normalizedUrl0);
          item0 = \<lparr>index_loc = normalizedUrl, index_lastmod = None\<rparr>;
          with_lastmod =
            (case lastmod_arg of
               None \<Rightarrow> Ok item0
             | Some (DateString s) \<Rightarrow> Ok (item0\<lparr>index_lastmod := Some (DateString s)\<rparr>)
             | Some (DateObject d) \<Rightarrow>
                 (case formatDate P (DateObject d) of
                    Throw e \<Rightarrow> Throw e
                  | Ok s \<Rightarrow> Ok (item0\<lparr>index_lastmod := Some (DateString s)\<rparr>)))
      in case with_lastmod of
           Throw e \<Rightarrow> (Throw e, I)
         | Ok item \<Rightarrow>
             if index_validate cfg \<and> length (validateSitemapItem P item) > 0
             then (Throw (Error (''Validation failed: ''
                                 @ errorMessages (validateSitemapItem P item))), I)
             else if num_ge (num_of_nat (length (index_items I))) (maxSitemaps cfg)
             then (Throw (Error (''Maximum number of sitemaps (''
                                 @ Number_toString P (maxSitemaps cfg) @ '') exceeded'')), I)
             else (Ok (), I\<lparr>index_items := index_items I @ [item]\<rparr>))"

fun addSitemaps :: "platform \<Rightarrow> SitemapIndex \<Rightarrow> SitemapIndexItem list
    \<Rightarrow> unit result \<times> SitemapIndex" where
  "addSitemaps P I [] = (Ok (), I)"
| "addSitemaps P I (item # rest) =
     (case addSitemap P I (index_loc item) (index_lastmod item) of
        (Throw e, I') \<Rightarrow> (Throw e, I')
      | (Ok u, I') \<Rightarrow> addSitemaps P I' rest)"

definition getSitemaps :: "SitemapIndex \<Rightarrow> SitemapIndexItem list" where
  "getSitemaps I = index_items I"

definition getSitemapCount :: "SitemapIndex \<Rightarrow> nat" where
  "getSitemapCount I = length (index_items I)"

definition SitemapIndex_clear :: "SitemapIndex \<Rightarrow> SitemapIndex" where
  "SitemapIndex_clear I = I\<lparr>index_items := []\<rparr>"

definition removeSitemaps :: "SitemapIndex \<Rightarrow> (SitemapIndexItem \<Rightarrow> bool) \<Rightarrow> SitemapIndex" where
  "removeSitemaps I predicate =
     I\<lparr>index_items := filter (\<lambda>item. \<not> predicate item) (index_items I)\<rparr>"

definition resetSitemaps :: "platform \<Rightarrow> SitemapIndex \<Rightarrow> SitemapIndexItem list
    \<Rightarrow> unit result \<times> SitemapIndex" where
  "resetSitemaps P I new_sitemaps = addSitemaps P (I\<lparr>index_items := []\<rparr>) new_sitemaps"

definition SitemapIndex_shouldSplit :: "SitemapIndex \<Rightarrow> bool" where
  "SitemapIndex_shouldSplit I =
     num_ge (num_of_nat (length (index_items I))) (maxSitemaps (index_config I))"

definition setConfig :: "SitemapIndex \<Rightarrow> SitemapIndexConfig \<Rightarrow> SitemapIndex" where
  "setConfig I c = I\<lparr>index_config := merge_index_config (index_config I) c\<rparr>"

text \<open>
  The calls a client can make on an index that change its list, and the index after a
  sequence of them. A call that throws leaves the index as it is at the throw, and the
  client goes on with that index.
\<close>

datatype index_call =
    AddSitemap string "datelike option"
  | AddSitemaps "SitemapIndexItem list"
  | ResetSitemaps "SitemapIndexItem list"
  | RemoveSitemaps "SitemapIndexItem \<Rightarrow> bool"
  | Clear

fun index_step :: "platform \<Rightarrow> SitemapIndex \<Rightarrow> index_call \<Rightarrow> SitemapIndex" where
  "index_step P I (AddSitemap l d) = snd (addSitemap P I l d)"
| "index_step P I (AddSitemaps xs) = snd (addSitemaps P I xs)"
| "index_step P I (ResetSitemaps xs) = snd (resetSitemaps P I xs)"
| "index_step P I (RemoveSitemaps predicate) = removeSitemaps I predicate"
| "index_step P I Clear = SitemapIndex_clear I"

definition index_run :: "platform \<Rightarrow> SitemapIndex \<Rightarrow> index_call list \<Rightarrow> SitemapIndex" where
  "index_run P I calls = foldl (index_step P) I calls"

section \<open>Arrays and records as objects\<close>

text \<open>
  \<open>Model.getItems\<close> returns \<open>[...this.items]\<close>: a new array whose elements are the
  references held by the array of the model. To say what a client can do with the result,
  arrays and records live in a heap: an array object is a list of references to record
  objects. \<open>next_ref\<close> is the next unused address.
\<close>

type_synonym ref = nat

record heap =
  arrays :: "ref \<Rightarrow> ref list option"
  records :: "ref \<Rightarrow> SitemapItem option"
  next_ref :: ref

text \<open>The model object: \<open>this.items\<close> is a reference to an array.\<close>

record ModelObject =
  items_ref :: ref

definition array_elems :: "heap \<Rightarrow> ref \<Rightarrow> ref list" where
  "array_elems h a = (case arrays h a of None \<Rightarrow> [] | Some rs \<Rightarrow> rs)"

definition new_array :: "heap \<Rightarrow> ref list \<Rightarrow> ref \<times> heap" where
  "new_array h rs =
     (next_ref h, h\<lparr>arrays := (arrays h)(next_ref h \<mapsto> rs), next_ref := Suc (next_ref h)\<rparr>)"

definition new_record :: "heap \<Rightarrow> SitemapItem \<Rightarrow> ref \<times> heap" where
  "new_record h item =
     (next_ref h, h\<lparr>records := (records h)(next_ref h \<mapsto> item), next_ref := Suc (next_ref h)\<rparr>)"

text \<open>\<open>this.items.push(item)\<close>, \<open>[...this.items]\<close>, \<open>this.items = []\<close>,
  \<open>this.items.length\<close>.\<close>

definition ModelObject_addItem :: "heap \<Rightarrow> ModelObject \<Rightarrow> ref \<Rightarrow> heap" where
  "ModelObject_addItem h m r =
     h\<lparr>arrays := (arrays h)(items_ref m \<mapsto> array_elems h (items_ref m) @ [r])\<rparr>"

definition ModelObject_getItems :: "heap \<Rightarrow> ModelObject \<Rightarrow> ref \<times> heap" where
  "ModelObject_getItems h m = new_array h (array_elems h (items_ref m))"

definition ModelObject_clear :: "heap \<Rightarrow> ModelObject \<Rightarrow> ModelObject \<times> heap" where
  "ModelObject_clear h m = (let (a, h') = new_array h [] in (m\<lparr>items_ref := a\<rparr>, h'))"

definition ModelObject_getItemCount :: "heap \<Rightarrow> ModelObject \<Rightarrow> nat" where
  "ModelObject_getItemCount h m = length (array_elems h (items_ref m))"

text \<open>
  The records an array holds, in order: for the array of the model, the list \<open>items\<close>
  that the methods of the model and the renderers read.
\<close>

definition array_records :: "heap \<Rightarrow> ref \<Rightarrow> SitemapItem option list" where
  "array_records h a = map (records h) (array_elems h a)"

definition stored_records :: "heap \<Rightarrow> ModelObject \<Rightarrow> SitemapItem option list" where
  "stored_records h m = array_records h (items_ref m)"

text \<open>
  What a client can do to an array it holds (\<open>push\<close>, \<open>pop\<close>, \<open>splice\<close>, assignment to
  an index or to \<open>length\<close>): its elements become some other list. What it can do to a
  record it reaches: the fields of that object become some other record.
\<close>

definition array_write :: "heap \<Rightarrow> ref \<Rightarrow> ref list \<Rightarrow> heap" where
  "array_write h a rs = h\<lparr>arrays := (arrays h)(a \<mapsto> rs)\<rparr>"

definition record_write :: "heap \<Rightarrow> ref \<Rightarrow> SitemapItem \<Rightarrow> heap" where
  "record_write h r item = h\<lparr>records := (records h)(r \<mapsto> item)\<rparr>"

text \<open>Every object in use lies below \<open>next_ref\<close>.\<close>

definition allocated :: "heap \<Rightarrow> ModelObject \<Rightarrow> bool" where
  "allocated h m = (items_ref m < next_ref h)"

section \<open>Notions used to state the properties\<close>

text \<open>
  The five XML metacharacters and the entity the escaping is meant to put for each. A
  string has no raw metacharacter when none of \<open><\<close>, \<open>>\<close>, the double and the single quote
  occurs in it and every \<open>&\<close> in it starts one of the five entities.
\<close>

definition xml_metachars :: "char list" where
  \<open>xml_metachars = [CHR ''&'', CHR ''<'', CHR ''>'', CHR 0x22, CHR 0x27]\<close>

definition xml_entity :: "char \<Rightarrow> string" where
  \<open>xml_entity c =
     (if c = CHR ''&'' then ''&amp;''
      else if c = CHR ''<'' then ''&lt;''
      else if c = CHR ''>'' then ''&gt;''
      else if c = CHR 0x22 then ''&quot;''
      else if c = CHR 0x27 then ''&#39;''
      else [c])\<close>

fun no_raw_metachar :: "string \<Rightarrow> bool" where
  "no_raw_metachar [] = True"
| "no_raw_metachar (c # cs) =
     ((if c = CHR ''&'' then list_ex (\<lambda>m. prefix (xml_entity m) (c # cs)) xml_metachars
       else c \<notin> set xml_metachars) \<and> no_raw_metachar cs)"

text \<open>
  A record with a location and nothing else, and the options object \<open>{}\<close> of \<open>add\<close>.
\<close>

definition plain_item :: "string \<Rightarrow> SitemapItem" where
  "plain_item u =
     \<lparr>loc = u, lastmod = None, priority = None, changefreq = None, title = None,
      images = None, videos = None, item_translations = None, alternates = None,
      googlenews = None\<rparr>"

definition no_options :: SitemapAddOptions where
  "no_options =
     \<lparr>opt_images = None, opt_videos = None, opt_translations = None, opt_alternates = None,
      opt_googlenews = None, opt_title = None\<rparr>"

text \<open>
  A small platform on which the definitions can be run. Its URL parser knows the absolute
  URLs of one host, \<open>https://example.com/path#fragment\<close>, and rejects every other
  string; its date parser knows one date; its clock stands at a later instant.
\<close>

definition sample_URL_new :: "string \<Rightarrow> string option \<Rightarrow> URL option" where
  "sample_URL_new u base =
     (if prefix ''https://example.com/'' u
      then (let rest = drop (length ''https://example.com'') u;
                path = takeWhile (\<lambda>c. c \<noteq> CHR ''#'') rest;
                frag = dropWhile (\<lambda>c. c \<noteq> CHR ''#'') rest
            in Some \<lparr>protocol = ''https:'', username = [], password = [],
                     hostname = ''example.com'', port = [], pathname = path, query = None,
                     fragment = (if frag = [] then None else Some (tl frag))\<rparr>)
      else None)"

definition sample_URL_toString :: "URL \<Rightarrow> string" where
  "sample_URL_toString x =
     protocol x @ ''//'' @ hostname x @ pathname x
     @ (case query x of None \<Rightarrow> [] | Some q \<Rightarrow> ''?'' @ q)
     @ (case fragment x of None \<Rightarrow> [] | Some f \<Rightarrow> ''#'' @ f)"

definition sample_platform :: platform where
  "sample_platform =
     \<lparr>URL_new = sample_URL_new,
      URL_toString = sample_URL_toString,
      Date_parse = (\<lambda>s. Date (if s = ''2024-01-01'' then Some 1704067200000 else None)),
      Date_now = 1800000000000,
      Date_toISOString = (\<lambda>t. if t = 1704067200000 then ''2024-01-01T00:00:00.000Z'' else []),
      Date_toString = (\<lambda>d. ''Invalid Date''),
      Number_toString = (\<lambda>n. case n of Fin r \<Rightarrow> decimal (nat \<lfloor>r\<rfloor>) | _ \<Rightarrow> ''NaN'')\<rparr>"

text \<open>
  The number of positions of a string at which another string starts, and the records that
  use each of the four extensions (the conditions under which \<open>toXML\<close> looks for them).
\<close>

fun count_occurrences :: "string \<Rightarrow> string \<Rightarrow> nat" where
  "count_occurrences sub [] = (if sub = [] then 1 else 0)"
| "count_occurrences sub (c # cs) =
     (if prefix sub (c # cs) then 1 else 0) + count_occurrences sub cs"

definition uses_images :: "SitemapItem \<Rightarrow> bool" where
  "uses_images item = (case images item of None \<Rightarrow> False | Some xs \<Rightarrow> xs \<noteq> [])"

definition uses_videos :: "SitemapItem \<Rightarrow> bool" where
  "uses_videos item = (case videos item of None \<Rightarrow> False | Some xs \<Rightarrow> xs \<noteq> [])"

definition uses_xhtml :: "SitemapItem \<Rightarrow> bool" where
  "uses_xhtml item =
     ((case item_translations item of None \<Rightarrow> False | Some xs \<Rightarrow> xs \<noteq> [])
      \<or> (case alternates item of None \<Rightarrow> False | Some xs \<Rightarrow> xs \<noteq> []))"

definition uses_news :: "SitemapItem \<Rightarrow> bool" where
  "uses_news item = (googlenews item \<noteq> None)"

text \<open>Sample records and the stores holding them.\<close>

definition plain_video :: "string \<Rightarrow> string \<Rightarrow> string \<Rightarrow> VideoItem" where
  "plain_video t d u =
     \<lparr>video_title = t, video_description = d, video_thumbnail_url = u, video_duration = None,
      video_expiration_date = None, video_rating = None, video_view_count = None,
      video_publication_date = None, video_family_friendly = None, video_restriction = None,
      video_gallery_loc = None, video_price = None, video_requires_subscription = None,
      video_platform = None, video_live = None\<rparr>"

definition plain_image :: "string \<Rightarrow> ImageItem" where
  "plain_image u =
     \<lparr>image_url = u, image_title = None, image_caption = None, image_geo_location = None,
      image_license = None\<rparr>"

definition video0 :: VideoItem where
  "video0 = plain_video ''a]]>b'' ''d'' ''https://example.com/t.png''"

definition item1 :: SitemapItem where
  "item1 = (plain_item ''https://example.com/v'')\<lparr>videos := Some [video0]\<rparr>"

definition store1 :: Sitemap where
  "store1 = \<lparr>model = \<lparr>items = [item1], sitemaps = [], config = DEFAULT_CONFIG\<rparr>\<rparr>"

definition image0 :: ImageItem where
  "image0 = plain_image ''https://example.com/i.png''"

definition item2 :: SitemapItem where
  "item2 = (plain_item ''https://example.com/i'')\<lparr>images := Some [image0]\<rparr>"

definition store2 :: Sitemap where
  "store2 = \<lparr>model = \<lparr>items = [item2], sitemaps = [], config = DEFAULT_CONFIG\<rparr>\<rparr>"

text \<open>
  An index with a given limit and no other option, and three calls that add one sitemap
  each.
\<close>

definition index_of_limit :: "rat \<Rightarrow> SitemapIndex" where
  "index_of_limit r = SitemapIndex_new (empty_index_config\<lparr>icfg_maxSitemaps := Some (Fin r)\<rparr>)"

definition three_adds :: "index_call list" where
  "three_adds =
     [AddSitemap ''https://example.com/1.xml'' None,
      AddSitemap ''https://example.com/2.xml'' None,
      AddSitemap ''https://example.com/3.xml'' None]"

text \<open>The heap before anything is allocated.\<close>

definition empty_heap :: heap where
  "empty_heap = \<lparr>arrays = (\<lambda>a. None), records = (\<lambda>r. None), next_ref = 0\<rparr>"

text \<open>
  The heap after \<open>const model = new Model(); model.addItem({loc: 'https://example.com/'})\<close>:
  the array of the model at address 0, the record at address 1.
\<close>

definition model0 :: ModelObject where
  "model0 = \<lparr>items_ref = fst (new_array empty_heap [])\<rparr>"

definition heap0 :: heap where
  "heap0 =
     (let h1 = snd (new_array empty_heap []);
          (r, h2) = new_record h1 (plain_item ''https://example.com/'')
      in ModelObject_addItem h2 model0 r)"

text \<open>
  What \<open>normalizeUrl\<close> does to the parsed URL: the fragment is removed and an empty path
  becomes \<open>/\<close>. The URL standard intends parsing to undo serialising; the property below
  says so of the platform for the URLs that \<open>normalizeUrl\<close> serialises, which are http and
  https URLs with a host.
\<close>

definition normalized :: "URL \<Rightarrow> URL" where
  "normalized x = x\<lparr>fragment := None, pathname := (if pathname x = [] then ''/'' else pathname x)\<rparr>"

definition serializer_round_trip :: "platform \<Rightarrow> bool" where
  "serializer_round_trip P =
     (\<forall>u x. isValidUrl P u \<and> URL_new P u None = Some x \<longrightarrow>
        URL_new P (URL_toString P (normalized x)) None = Some (normalized x))"

section \<open>Escaping\<close>

lemma replaceAll_char:
  "replaceAll [c] rep s = concat (map (\<lambda>x. if x = c then rep else [x]) s)"
  by (induction s) auto

lemma concat_map_concat_map:
  "concat (map f (concat (map g s))) = concat (map (\<lambda>x. concat (map f (g x))) s)"
  by (induction s) auto

lemma escapeXml_charwise: "escapeXml s = concat (map xml_entity s)"
  unfolding escapeXml_def replaceAll_char concat_map_concat_map
  by (rule arg_cong[where f=concat], rule map_cong[OF refl]) (simp add: xml_entity_def)

lemma no_raw_entity: "no_raw_metachar (xml_entity c @ r) = no_raw_metachar r"
  by (simp add: xml_entity_def xml_metachars_def)

lemma no_raw_escaped: "no_raw_metachar (concat (map xml_entity s))"
  by (induction s) (simp_all only: list.map concat.simps no_raw_entity no_raw_metachar.simps)

lemma no_raw_only_amp: "no_raw_metachar s \<Longrightarrow> c \<in> set s \<Longrightarrow> c \<in> set xml_metachars \<Longrightarrow> c = CHR ''&''"
  by (induction s) (auto split: if_splits)

lemma entity_noop: "\<forall>c\<in>set s. c \<notin> set xml_metachars \<Longrightarrow> concat (map xml_entity s) = s"
  by (induction s) (auto simp: xml_metachars_def xml_entity_def)

lemma entity_sublist: "c \<in> set s \<Longrightarrow> sublist (xml_entity c) (concat (map xml_entity s))"
proof -
  assume "c \<in> set s"
  then obtain a b where "s = a @ c # b" by (auto simp: in_set_conv_decomp)
  then have "concat (map xml_entity s) = concat (map xml_entity a) @ xml_entity c @ concat (map xml_entity b)"
    by simp
  then show ?thesis unfolding sublist_def by blast
qed

lemma Sitemap_escapeXml_eq:
  "Sitemap_escapeXml S s = (if escaping (config (model S)) then escapeXml s else s)"
  by (simp add: Sitemap_escapeXml_def escapeXml_def Model_getConfig_def)

text \<open>
  C2. The escaping function replaces every character of its input by the entity of that
  character when it is one of the five metacharacters and leaves it alone otherwise. So the
  output has no raw metacharacter (none of \<open><\<close>, \<open>>\<close> and the quotes at all, and \<open>&\<close> only as
  the first character of an entity), it contains the entity of every metacharacter of the
  input, and it equals the input when the input has none of the five. The private
  \<open>escapeXml\<close> of the sitemap is the same function when escaping is enabled.
\<close>

theorem escapeXml_replaces_metachars:
  "escapeXml s = concat (map xml_entity s)
   \<and> no_raw_metachar (escapeXml s)
   \<and> (\<forall>c\<in>set (escapeXml s). c \<in> set xml_metachars \<longrightarrow> c = CHR ''&'')
   \<and> (\<forall>c\<in>set s. sublist (xml_entity c) (escapeXml s))
   \<and> ((\<forall>c\<in>set s. c \<notin> set xml_metachars) \<longrightarrow> escapeXml s = s)
   \<and> (escaping (config (model S)) \<longrightarrow> Sitemap_escapeXml S s = escapeXml s)"
  using no_raw_escaped[of s] no_raw_only_amp[of "escapeXml s"] entity_noop[of s] entity_sublist[of _ s]
  by (simp add: escapeXml_charwise Sitemap_escapeXml_eq)

theorem escapeXml_replaces_metachars_witness:
  \<open>CHR ''<'' \<in> set ''a<b'' \<and> CHR ''<'' \<in> set xml_metachars
   \<and> escapeXml ''a<b'' = ''a&lt;b''
   \<and> sublist ''&lt;'' (escapeXml ''a<b'')
   \<and> CHR ''&'' \<in> set (escapeXml ''a<b'')
   \<and> set ''abc'' \<inter> set xml_metachars = {} \<and> escapeXml ''abc'' = ''abc''
   \<and> escaping (config (model (Sitemap_new empty_config)))
   \<and> Sitemap_escapeXml (Sitemap_new empty_config) ''a<b'' = ''a&lt;b''\<close>
proof -
  have m: "CHR ''<'' \<in> set ''a<b''" "CHR ''<'' \<in> set xml_metachars"
    by (simp_all add: xml_metachars_def)
  have n: "\<forall>c\<in>set ''abc''. c \<notin> set xml_metachars"
    by (simp add: xml_metachars_def)
  have e: "escaping (config (model (Sitemap_new empty_config)))"
    by (simp add: Sitemap_new_def Model_new_def merge_config_def DEFAULT_CONFIG_def empty_config_def)
  note t1 = escapeXml_replaces_metachars[of "''a<b''" "Sitemap_new empty_config"]
  note t2 = escapeXml_replaces_metachars[of "''abc''" "Sitemap_new empty_config"]
  have v: "escapeXml ''a<b'' = ''a&lt;b''"
    using t1[THEN conjunct1] by (simp add: xml_entity_def)
  have "sublist (xml_entity CHR ''<'') (escapeXml ''a<b'')"
    using t1[THEN conjunct2, THEN conjunct2, THEN conjunct2, THEN conjunct1] m(1) by blast
  then have s: "sublist ''&lt;'' (escapeXml ''a<b'')"
    by (simp add: xml_entity_def)
  have x: "Sitemap_escapeXml (Sitemap_new empty_config) ''a<b'' = ''a&lt;b''"
    using t1[THEN conjunct2, THEN conjunct2, THEN conjunct2, THEN conjunct2, THEN conjunct2] e v
    by simp
  have i: "escapeXml ''abc'' = ''abc''"
    using t2[THEN conjunct2, THEN conjunct2, THEN conjunct2, THEN conjunct2, THEN conjunct1] n
    by blast
  have a: "CHR ''&'' \<in> set (escapeXml ''a<b'')" by (simp add: v)
  have n': "set ''abc'' \<inter> set xml_metachars = {}"
    by (simp add: xml_metachars_def)
  show ?thesis
    by (intro conjI m n' e v s x i a)
qed


section \<open>The split threshold\<close>

lemma default_config:
  "config (model (Sitemap_new empty_config)) = DEFAULT_CONFIG"
  by (simp add: Sitemap_new_def Model_new_def merge_config_def empty_config_def DEFAULT_CONFIG_def)

text \<open>
  C7. For a store whose max-items threshold is the integer \<open>m\<close>, \<open>shouldSplit\<close> is true
  exactly when the number of stored records is at least \<open>m\<close>: false at \<open>m - 1\<close> records and
  at any count below \<open>m\<close>, true at exactly \<open>m\<close> records and at any count above. The default
  threshold is 50000.
\<close>

theorem shouldSplit_threshold:
  "maxItems (config (model S)) = Fin (of_int m) \<Longrightarrow>
     shouldSplit S = (m \<le> int (getItemCount S))
     \<and> (int (getItemCount S) = m - 1 \<longrightarrow> \<not> shouldSplit S)
     \<and> (int (getItemCount S) < m \<longrightarrow> \<not> shouldSplit S)
     \<and> (int (getItemCount S) = m \<longrightarrow> shouldSplit S)
     \<and> (int (getItemCount S) > m \<longrightarrow> shouldSplit S)
     \<and> shouldSplit S = num_ge (num_of_nat (getItemCount S)) (maxItems (config (model S)))
     \<and> maxItems (config (model (Sitemap_new empty_config))) = Fin (of_int 50000)"
proof -
  assume a: "maxItems (config (model S)) = Fin (of_int m)"
  have g: "shouldSplit S = num_ge (num_of_nat (getItemCount S)) (maxItems (config (model S)))"
    by (simp add: shouldSplit_def Model_shouldSplit_def getItemCount_def Model_getItemCount_def)
  then have "shouldSplit S = (rat_of_int m \<le> of_nat (getItemCount S))"
    by (simp add: num_ge_def num_of_nat_def a)
  also have "\<dots> = (m \<le> int (getItemCount S))"
    by (metis of_int_le_iff of_int_of_nat_eq)
  finally have e: "shouldSplit S = (m \<le> int (getItemCount S))" .
  have d: "maxItems (config (model (Sitemap_new empty_config))) = Fin (of_int 50000)"
    by (simp add: default_config DEFAULT_CONFIG_def)
  have "(int (getItemCount S) = m - 1 \<longrightarrow> \<not> shouldSplit S)
     \<and> (int (getItemCount S) < m \<longrightarrow> \<not> shouldSplit S)
     \<and> (int (getItemCount S) = m \<longrightarrow> shouldSplit S)
     \<and> (int (getItemCount S) > m \<longrightarrow> shouldSplit S)"
    by (simp add: e)
  with e g d show ?thesis
    by blast
qed

theorem shouldSplit_threshold_witness:
  "maxItems (config (model (Sitemap_new (empty_config\<lparr>cfg_maxItems := Some (Fin 2)\<rparr>))))
     = Fin (of_int 2)
   \<and> \<not> shouldSplit
        (Sitemap_new (empty_config\<lparr>cfg_maxItems := Some (Fin 2)\<rparr>)
           \<lparr>model := Model_addItem (Model_new (empty_config\<lparr>cfg_maxItems := Some (Fin 2)\<rparr>))
                       (plain_item ''https://example.com/a'')\<rparr>)
   \<and> shouldSplit
        (Sitemap_new (empty_config\<lparr>cfg_maxItems := Some (Fin 2)\<rparr>)
           \<lparr>model := Model_addItem
                       (Model_addItem (Model_new (empty_config\<lparr>cfg_maxItems := Some (Fin 2)\<rparr>))
                          (plain_item ''https://example.com/a''))
                       (plain_item ''https://example.com/b'')\<rparr>)"
proof -
  let ?c = "empty_config\<lparr>cfg_maxItems := Some (Fin 2)\<rparr>"
  let ?S = "Sitemap_new ?c\<lparr>model := Model_addItem (Model_new ?c)
              (plain_item ''https://example.com/a'')\<rparr>"
  let ?T = "Sitemap_new ?c\<lparr>model := Model_addItem (Model_addItem (Model_new ?c)
              (plain_item ''https://example.com/a'')) (plain_item ''https://example.com/b'')\<rparr>"
  have h0: "maxItems (config (model (Sitemap_new ?c))) = Fin (of_int 2)"
    by (simp add: Sitemap_new_def Model_new_def merge_config_def empty_config_def)
  have h: "maxItems (config (model ?S)) = Fin (of_int 2)"
    by (simp add: Sitemap_new_def Model_new_def merge_config_def empty_config_def Model_addItem_def)
  have c: "int (getItemCount ?S) = 2 - 1"
    by (simp add: getItemCount_def Model_getItemCount_def Model_addItem_def Model_new_def)
  from shouldSplit_threshold[OF h] c have s: "\<not> shouldSplit ?S" by blast
  have h': "maxItems (config (model ?T)) = Fin (of_int 2)"
    by (simp add: Sitemap_new_def Model_new_def merge_config_def empty_config_def Model_addItem_def)
  have c': "int (getItemCount ?T) = 2"
    by (simp add: getItemCount_def Model_getItemCount_def Model_addItem_def Model_new_def)
  from shouldSplit_threshold[OF h'] c' have t: "shouldSplit ?T" by blast
  show ?thesis
    by (intro conjI h0 s t)
qed

section \<open>Rendering\<close>

text \<open>
  C5. Rendering a store with no records, with no stylesheet in force (as in the default
  configuration), gives exactly the XML declaration, a line break, the start tag of
  \<open>urlset\<close> with the sitemap namespace alone, a line break and the end tag: nothing for
  any entry.
\<close>

theorem toXML_empty:
  \<open>getItems S = [] \<Longrightarrow>
   (case ro_stylesheet options of Some s \<Rightarrow> s | None \<Rightarrow> stylesheet (config (model S))) = [] \<Longrightarrow>
   toXML P S options =
     Ok (''<?xml version="1.0" encoding="UTF-8"?>\<newline>''
         @ ''<urlset xmlns="http://www.sitemaps.org/schemas/sitemap/0.9">\<newline>''
         @ ''</urlset>'')\<close>
  by (simp add: toXML_def getItems_def Model_getItems_def Model_getConfig_def xmlProlog_def
      urlsetStartTag_def truthy_def)

theorem toXML_empty_witness:
  \<open>getItems (Sitemap_new empty_config) = []
   \<and> (case ro_stylesheet empty_options of Some s \<Rightarrow> s
       | None \<Rightarrow> stylesheet (config (model (Sitemap_new empty_config)))) = []
   \<and> toXML sample_platform (Sitemap_new empty_config) empty_options =
     Ok ''<?xml version="1.0" encoding="UTF-8"?>\<newline><urlset xmlns="http://www.sitemaps.org/schemas/sitemap/0.9">\<newline></urlset>''\<close>
proof -
  have a: "getItems (Sitemap_new empty_config) = []"
    by (simp add: getItems_def Model_getItems_def Sitemap_new_def Model_new_def)
  have b: "(case ro_stylesheet empty_options of Some s \<Rightarrow> s
       | None \<Rightarrow> stylesheet (config (model (Sitemap_new empty_config)))) = []"
    by (simp add: empty_options_def default_config DEFAULT_CONFIG_def)
  from toXML_empty[OF a b, of sample_platform] a b show ?thesis by simp
qed


section \<open>Adding records\<close>

lemma sublist_appendL: "sublist x b \<Longrightarrow> sublist x (a @ b)"
  by (simp add: sublist_append)

lemma sublist_appendR: "sublist x a \<Longrightarrow> sublist x (a @ b)"
  by (simp add: sublist_append)

lemma join_sublist: "x \<in> set xs \<Longrightarrow> sublist x (join sep xs)"
proof (induction sep xs rule: join.induct)
  case (1 sep)
  then show ?case by simp
next
  case (2 sep y)
  then show ?case by simp
next
  case (3 sep a b ys)
  show ?case
  proof (cases "x = a")
    case True
    then show ?thesis by simp
  next
    case False
    with 3 have "sublist x (join sep (b # ys))" by simp
    then show ?thesis by (simp add: sublist_appendL)
  qed
qed

lemma errorMessages_sublist:
  assumes "e \<in> set errors"
  shows "sublist (err_message e) (errorMessages errors)"
proof -
  have "err_field e @ '': '' @ err_message e \<in> set (map (\<lambda>e. err_field e @ '': '' @ err_message e) errors)"
    using assms by auto
  then have "sublist (err_field e @ '': '' @ err_message e) (errorMessages errors)"
    unfolding errorMessages_def by (rule join_sublist)
  moreover have "sublist (err_message e) (err_field e @ '': '' @ err_message e)"
    by (intro sublist_appendL) simp
  ultimately show ?thesis
    using sublist_order.order_trans by blast
qed

lemma sample_invalid [simp]: "\<not> prefix ''https://example.com/'' u \<Longrightarrow> \<not> isValidUrl sample_platform u"
  by (simp add: isValidUrl_def sample_platform_def sample_URL_new_def)

lemma sample_normalize_invalid [simp]:
  "\<not> prefix ''https://example.com/'' u \<Longrightarrow> normalizeUrl sample_platform u = u"
  by (simp add: normalizeUrl_def)

lemma default_model_config: "config (Model_new empty_config) = DEFAULT_CONFIG"
  by (simp add: Model_new_def merge_config_def empty_config_def DEFAULT_CONFIG_def)

lemma sample_process_a:
  "processItem sample_platform DEFAULT_CONFIG (plain_item ''https://example.com/a'')
     = Ok (plain_item ''https://example.com/a'')"
  by (simp add: processItem_def normalizeUrl_def isValidUrl_def sample_platform_def
      sample_URL_new_def sample_URL_toString_def truthy_def plain_item_def DEFAULT_CONFIG_def)

lemma sample_valid_a: "validateItem sample_platform (plain_item ''https://example.com/a'') = []"
  by (simp add: validateItem_def isValidUrl_def sample_platform_def
      sample_URL_new_def truthy_def plain_item_def)

text \<open>
  C4. In a store with validation enabled, when the record that \<open>add\<close> builds from its
  arguments fails at least one validation rule, \<open>add\<close> throws an error whose message is
  \<open>Validation failed:\<close> followed by the messages of all the errors, each after its field
  and joined by commas; the store after the throw is the store before it, with the same
  record list and the same count.
\<close>

theorem add_validation_failure:
  assumes "validate (config (model S))"
    and "add_item P (config (model S)) url lm pr cf opts = Ok item"
    and "validateItem P item \<noteq> []"
  shows "\<exists>msg. add P S url lm pr cf opts = (Throw (Error (''Validation failed: '' @ msg)), S)
           \<and> msg = join '', '' (map (\<lambda>e. err_field e @ '': '' @ err_message e) (validateItem P item))
           \<and> (\<forall>e\<in>set (validateItem P item). sublist (err_message e) msg)
           \<and> getItemCount (snd (add P S url lm pr cf opts)) = getItemCount S
           \<and> getItems (snd (add P S url lm pr cf opts)) = getItems S"
proof -
  let ?msg = "errorMessages (validateItem P item)"
  have r: "add P S url lm pr cf opts = (Throw (Error (''Validation failed: '' @ ?msg)), S)"
    using assms by (simp add: add_def Model_getConfig_def)
  have "\<forall>e\<in>set (validateItem P item). sublist (err_message e) ?msg"
    by (simp add: errorMessages_sublist)
  with r show ?thesis
    by (simp add: errorMessages_def)
qed

theorem add_validation_failure_witness:
  "validate (config (model (Sitemap_new empty_config)))
   \<and> add_item sample_platform (config (model (Sitemap_new empty_config))) ''not a url'' None (Some (Fin 2)) None no_options
       = Ok ((plain_item ''not a url'')\<lparr>priority := Some (Fin 2)\<rparr>)
   \<and> validateItem sample_platform ((plain_item ''not a url'')\<lparr>priority := Some (Fin 2)\<rparr>) \<noteq> []
   \<and> add sample_platform (Sitemap_new empty_config) ''not a url'' None (Some (Fin 2)) None no_options
       = (Throw (Error ''Validation failed: loc: URL (loc) is not valid, priority: Priority must be a number between 0.0 and 1.0''),
          Sitemap_new empty_config)
   \<and> getItemCount (snd (add sample_platform (Sitemap_new empty_config) ''not a url'' None (Some (Fin 2)) None no_options)) = 0"
proof -
  let ?S = "Sitemap_new empty_config"
  let ?it = "(plain_item ''not a url'')\<lparr>priority := Some (Fin 2)\<rparr>"
  have a: "validate (config (model ?S))"
    by (simp add: Sitemap_new_def default_model_config DEFAULT_CONFIG_def)
  have b: "add_item sample_platform (config (model ?S)) ''not a url'' None (Some (Fin 2)) None no_options = Ok ?it"
    by (simp add: add_item_def Sitemap_new_def default_model_config DEFAULT_CONFIG_def truthy_def
        no_options_def plain_item_def)
  have v: "validateItem sample_platform ?it =
     [mk_error ''url'' ''loc'' ''URL (loc) is not valid'' (VString ''not a url''),
      mk_error ''priority'' ''priority'' ''Priority must be a number between 0.0 and 1.0'' (VNumber (Fin 2))]"
    by (simp add: validateItem_def plain_item_def truthy_def isValidPriority_def num_ge_def)
  have c: "validateItem sample_platform ?it \<noteq> []"
    by (simp add: v)
  from add_validation_failure[OF a b c] obtain msg where
    m: "add sample_platform ?S ''not a url'' None (Some (Fin 2)) None no_options
          = (Throw (Error (''Validation failed: '' @ msg)), ?S)"
       "msg = join '', '' (map (\<lambda>e. err_field e @ '': '' @ err_message e) (validateItem sample_platform ?it))"
    by blast
  have "msg = ''loc: URL (loc) is not valid, priority: Priority must be a number between 0.0 and 1.0''"
    unfolding m(2) v by (simp add: mk_error_def)
  with m(1) have d: "add sample_platform ?S ''not a url'' None (Some (Fin 2)) None no_options
       = (Throw (Error ''Validation failed: loc: URL (loc) is not valid, priority: Priority must be a number between 0.0 and 1.0''), ?S)"
    by simp
  have e: "getItemCount (snd (add sample_platform ?S ''not a url'' None (Some (Fin 2)) None no_options)) = 0"
    unfolding d by (simp add: getItemCount_def Model_getItemCount_def Sitemap_new_def Model_new_def)
  show ?thesis by (intro conjI a b c d e)
qed

lemma addItem_loop_failure:
  assumes "validate cfg"
    and "list_all2 (\<lambda>x y. processItem P cfg x = Ok y \<and> validateItem P y = []) pre pre'"
    and "processItem P cfg bad = Ok bad'"
    and "validateItem P bad' \<noteq> []"
  shows "addItem_loop P cfg S (pre @ bad # post) =
           (Throw (Error (''Validation failed for '' @ loc bad' @ '': ''
                          @ errorMessages (validateItem P bad'))),
            S\<lparr>model := (model S)\<lparr>items := items (model S) @ pre'\<rparr>\<rparr>)"
  using assms(2)
proof (induction pre pre' arbitrary: S rule: list_all2_induct)
  case Nil
  then show ?case using assms(1,3,4) by simp
next
  case (Cons x xs y ys)
  then show ?case by (simp add: Model_addItem_def)
qed

text \<open>
  C6. In a store with validation enabled, \<open>addItem\<close> processes its records in order,
  whether it is given one record or an array of records. When the records \<open>pre\<close> pass
  (their processed forms \<open>pre'\<close> have no validation error) and the processed form of the
  next record fails, the call throws an error that names the location of that record and
  all its errors; the store then holds its earlier records followed by \<open>pre'\<close>, so the
  records before the failing one are stored and the failing one and those after it are
  not.
\<close>

theorem addItem_batch_failure:
  assumes "validate (config (model S))"
    and "(case input of Many xs \<Rightarrow> xs | Single x \<Rightarrow> [x]) = pre @ bad # post"
    and "list_all2 (\<lambda>x y. processItem P (config (model S)) x = Ok y \<and> validateItem P y = [])
           pre pre'"
    and "processItem P (config (model S)) bad = Ok bad'"
    and "validateItem P bad' \<noteq> []"
  shows "\<exists>msg S'. addItem P S input = (Throw (Error msg), S')
           \<and> msg = ''Validation failed for '' @ loc bad' @ '': ''
                    @ join '', '' (map (\<lambda>e. err_field e @ '': '' @ err_message e)
                                     (validateItem P bad'))
           \<and> (\<forall>e\<in>set (validateItem P bad'). sublist (err_message e) msg)
           \<and> getItems S' = getItems S @ pre'
           \<and> getItemCount S' = getItemCount S + length pre"
proof -
  let ?msg = "''Validation failed for '' @ loc bad' @ '': '' @ errorMessages (validateItem P bad')"
  let ?S' = "S\<lparr>model := (model S)\<lparr>items := items (model S) @ pre'\<rparr>\<rparr>"
  have "addItem P S input = addItem_loop P (config (model S)) S (pre @ bad # post)"
    by (simp add: addItem_def Model_getConfig_def assms(2))
  then have r: "addItem P S input = (Throw (Error ?msg), ?S')"
    using addItem_loop_failure[OF assms(1,3,4,5)] by simp
  have "sublist (err_message e) ?msg" if "e \<in> set (validateItem P bad')" for e
  proof -
    from that have "sublist (err_message e) (errorMessages (validateItem P bad'))"
      by (rule errorMessages_sublist)
    then show ?thesis by (intro sublist_appendL)
  qed
  then have "\<forall>e\<in>set (validateItem P bad'). sublist (err_message e) ?msg"
    by blast
  moreover have "length pre' = length pre"
    using assms(3) by (simp add: list_all2_lengthD)
  ultimately show ?thesis
    using r by (simp add: errorMessages_def getItems_def Model_getItems_def getItemCount_def
        Model_getItemCount_def)
qed

theorem addItem_batch_failure_witness:
  "validate (config (model (Sitemap_new empty_config)))
   \<and> (case Many [plain_item ''https://example.com/a'', plain_item ''bad'',
                  plain_item ''https://example.com/c'']
       of Many xs \<Rightarrow> xs | Single x \<Rightarrow> [x])
      = [plain_item ''https://example.com/a''] @ plain_item ''bad''
        # [plain_item ''https://example.com/c'']
   \<and> list_all2 (\<lambda>x y. processItem sample_platform (config (model (Sitemap_new empty_config))) x = Ok y
                     \<and> validateItem sample_platform y = [])
        [plain_item ''https://example.com/a''] [plain_item ''https://example.com/a'']
   \<and> processItem sample_platform (config (model (Sitemap_new empty_config))) (plain_item ''bad'')
        = Ok (plain_item ''bad'')
   \<and> validateItem sample_platform (plain_item ''bad'') \<noteq> []
   \<and> fst (addItem sample_platform (Sitemap_new empty_config)
        (Many [plain_item ''https://example.com/a'', plain_item ''bad'',
               plain_item ''https://example.com/c'']))
       = Throw (Error ''Validation failed for bad: loc: URL (loc) is not valid'')
   \<and> getItems (snd (addItem sample_platform (Sitemap_new empty_config)
        (Many [plain_item ''https://example.com/a'', plain_item ''bad'',
               plain_item ''https://example.com/c''])))
       = [plain_item ''https://example.com/a'']
   \<and> (case Single (plain_item ''bad'') of Many xs \<Rightarrow> xs | Single x \<Rightarrow> [x])
      = [] @ plain_item ''bad'' # []
   \<and> fst (addItem sample_platform (Sitemap_new empty_config) (Single (plain_item ''bad'')))
       = Throw (Error ''Validation failed for bad: loc: URL (loc) is not valid'')
   \<and> getItems (snd (addItem sample_platform (Sitemap_new empty_config)
        (Single (plain_item ''bad'')))) = []"
proof -
  let ?S = "Sitemap_new empty_config"
  let ?batch = "Many [plain_item ''https://example.com/a'', plain_item ''bad'',
                      plain_item ''https://example.com/c'']"
  let ?one = "Single (plain_item ''bad'')"
  have cfg: "config (model ?S) = DEFAULT_CONFIG"
    by (simp add: Sitemap_new_def default_model_config)
  have a: "validate (config (model ?S))"
    by (simp add: cfg DEFAULT_CONFIG_def)
  have i: "(case ?batch of Many xs \<Rightarrow> xs | Single x \<Rightarrow> [x])
      = [plain_item ''https://example.com/a''] @ plain_item ''bad''
        # [plain_item ''https://example.com/c'']"
    by simp
  have b: "list_all2 (\<lambda>x y. processItem sample_platform (config (model ?S)) x = Ok y
                     \<and> validateItem sample_platform y = [])
        [plain_item ''https://example.com/a''] [plain_item ''https://example.com/a'']"
    by (simp add: cfg sample_process_a sample_valid_a)
  have c: "processItem sample_platform (config (model ?S)) (plain_item ''bad'') = Ok (plain_item ''bad'')"
    by (simp add: cfg processItem_def plain_item_def DEFAULT_CONFIG_def truthy_def)
  have v: "validateItem sample_platform (plain_item ''bad'')
             = [mk_error ''url'' ''loc'' ''URL (loc) is not valid'' (VString ''bad'')]"
    by (simp add: validateItem_def plain_item_def truthy_def)
  have d: "validateItem sample_platform (plain_item ''bad'') \<noteq> []"
    by (simp add: v)
  have mv: "''Validation failed for '' @ loc (plain_item ''bad'') @ '': ''
                    @ join '', '' (map (\<lambda>e. err_field e @ '': '' @ err_message e)
                                     (validateItem sample_platform (plain_item ''bad'')))
            = ''Validation failed for bad: loc: URL (loc) is not valid''"
    unfolding v by (simp add: mk_error_def plain_item_def)
  have g0: "getItems ?S = []"
    by (simp add: getItems_def Model_getItems_def Sitemap_new_def Model_new_def)
  from addItem_batch_failure[OF a i b c d]
  obtain msg S' where
    r: "addItem sample_platform ?S ?batch = (Throw (Error msg), S')"
    and m: "msg = ''Validation failed for '' @ loc (plain_item ''bad'') @ '': ''
                    @ join '', '' (map (\<lambda>e. err_field e @ '': '' @ err_message e)
                                     (validateItem sample_platform (plain_item ''bad'')))"
    and g: "getItems S' = getItems ?S @ [plain_item ''https://example.com/a'']"
    by blast
  have e: "fst (addItem sample_platform ?S ?batch)
       = Throw (Error ''Validation failed for bad: loc: URL (loc) is not valid'')"
    using r m mv by simp
  have f: "getItems (snd (addItem sample_platform ?S ?batch))
       = [plain_item ''https://example.com/a'']"
    using r g g0 by simp
  have i1: "(case ?one of Many xs \<Rightarrow> xs | Single x \<Rightarrow> [x]) = [] @ plain_item ''bad'' # []"
    by simp
  have b1: "list_all2 (\<lambda>x y. processItem sample_platform (config (model ?S)) x = Ok y
                     \<and> validateItem sample_platform y = []) [] []"
    by simp
  from addItem_batch_failure[OF a i1 b1 c d]
  obtain msg1 S1 where
    r1: "addItem sample_platform ?S ?one = (Throw (Error msg1), S1)"
    and m1: "msg1 = ''Validation failed for '' @ loc (plain_item ''bad'') @ '': ''
                    @ join '', '' (map (\<lambda>e. err_field e @ '': '' @ err_message e)
                                     (validateItem sample_platform (plain_item ''bad'')))"
    and g1: "getItems S1 = getItems ?S @ []"
    by blast
  have e1: "fst (addItem sample_platform ?S ?one)
       = Throw (Error ''Validation failed for bad: loc: URL (loc) is not valid'')"
    using r1 m1 mv by simp
  have f1: "getItems (snd (addItem sample_platform ?S ?one)) = []"
    using r1 g1 g0 by simp
  show ?thesis by (intro conjI a i b c d e f i1 e1 f1)
qed

section \<open>The root element\<close>

lemma prefix_no_sep: "c \<notin> set sub \<Longrightarrow> prefix sub (zs @ c # ys) \<longleftrightarrow> prefix sub zs"
  by (auto simp: prefix_append prefix_Cons)

lemma count_sep:
  "sub \<noteq> [] \<Longrightarrow> c \<notin> set sub \<Longrightarrow>
   count_occurrences sub (xs @ c # ys) = count_occurrences sub xs + count_occurrences sub ys"
proof (induction xs)
  case Nil
  then show ?case by (cases sub) (auto simp: prefix_Cons)
next
  case (Cons x xs)
  have "prefix sub ((x # xs) @ c # ys) \<longleftrightarrow> prefix sub (x # xs)"
    using Cons.prems(2) by (rule prefix_no_sep)
  with Cons show ?case by simp
qed

lemma count_piece:
  "sub \<noteq> [] \<Longrightarrow> c \<notin> set sub \<Longrightarrow>
   count_occurrences sub ((if a then p @ [c] else []) @ rest)
     = (if a then count_occurrences sub p else 0) + count_occurrences sub rest"
  using count_sep[of sub c p rest] by simp

lemma if_append_same: "(if b then x @ y else x) = x @ (if b then y else [])"
  by simp

lemma urlsetStartTag_shape:
  \<open>urlsetStartTag its =
     ''<urlset xmlns="http://www.sitemaps.org/schemas/sitemap/0.9'' @ CHR 0x22 #
     ((if list_ex uses_images its
       then '' xmlns:image="http://www.google.com/schemas/sitemap-image/1.1'' @ [CHR 0x22] else [])
     @ ((if list_ex uses_videos its
       then '' xmlns:video="http://www.google.com/schemas/sitemap-video/1.1'' @ [CHR 0x22] else [])
     @ ((if list_ex uses_xhtml its
       then '' xmlns:xhtml="http://www.w3.org/1999/xhtml'' @ [CHR 0x22] else [])
     @ ((if list_ex uses_news its
       then '' xmlns:news="http://www.google.com/schemas/sitemap-news/0.9'' @ [CHR 0x22] else [])
     @ ''>\<newline>''))))\<close>
proof -
  have i: "list_ex (\<lambda>item. case images item of None \<Rightarrow> False | Some xs \<Rightarrow> length xs > 0) its
           = list_ex uses_images its"
    by (auto simp: uses_images_def list_ex_iff split: option.splits)
  have v: "list_ex (\<lambda>item. case videos item of None \<Rightarrow> False | Some xs \<Rightarrow> length xs > 0) its
           = list_ex uses_videos its"
    by (auto simp: uses_videos_def list_ex_iff split: option.splits)
  have t: "(case item_translations item of None \<Rightarrow> False | Some xs \<Rightarrow> length xs > 0)
           = (case item_translations item of None \<Rightarrow> False | Some xs \<Rightarrow> xs \<noteq> [])" for item
    by (simp split: option.splits)
  have a: "(case alternates item of None \<Rightarrow> False | Some xs \<Rightarrow> length xs > 0)
           = (case alternates item of None \<Rightarrow> False | Some xs \<Rightarrow> xs \<noteq> [])" for item
    by (simp split: option.splits)
  have x: "(list_ex (\<lambda>item. case item_translations item of None \<Rightarrow> False | Some xs \<Rightarrow> length xs > 0) its
            \<or> list_ex (\<lambda>item. case alternates item of None \<Rightarrow> False | Some xs \<Rightarrow> length xs > 0) its)
           = list_ex uses_xhtml its"
    unfolding list_ex_iff uses_xhtml_def t a by blast
  have n: "list_ex (\<lambda>item. googlenews item \<noteq> None) its = list_ex uses_news its"
    by (auto simp: uses_news_def list_ex_iff)
  show ?thesis
    apply (simp only: urlsetStartTag_def if_append_same)
    apply (simp only: Let_def i v x n)
    apply (simp only: append_assoc append_Cons append_Nil)
    done
qed

lemma urlsetStartTag_shape':
  \<open>urlsetStartTag its =
     ''<urlset xmlns="http://www.sitemaps.org/schemas/sitemap/0.9"''
     @ (if \<exists>item\<in>set its. uses_images item
        then '' xmlns:image="http://www.google.com/schemas/sitemap-image/1.1"'' else [])
     @ (if \<exists>item\<in>set its. uses_videos item
        then '' xmlns:video="http://www.google.com/schemas/sitemap-video/1.1"'' else [])
     @ (if \<exists>item\<in>set its. uses_xhtml item
        then '' xmlns:xhtml="http://www.w3.org/1999/xhtml"'' else [])
     @ (if \<exists>item\<in>set its. uses_news item
        then '' xmlns:news="http://www.google.com/schemas/sitemap-news/0.9"'' else [])
     @ ''>\<newline>''\<close>
  unfolding urlsetStartTag_shape list_ex_iff
  by (simp only: append_assoc append_Cons append_Nil if_distrib[of "\<lambda>x. x @ _"] cong: if_cong)

lemma start_tag_count:
  assumes "sub \<noteq> []" and "CHR 0x22 \<notin> set sub"
  shows \<open>count_occurrences sub (urlsetStartTag its) =
     count_occurrences sub ''<urlset xmlns="http://www.sitemaps.org/schemas/sitemap/0.9''
     + ((if list_ex uses_images its
         then count_occurrences sub '' xmlns:image="http://www.google.com/schemas/sitemap-image/1.1''
         else 0)
     + ((if list_ex uses_videos its
         then count_occurrences sub '' xmlns:video="http://www.google.com/schemas/sitemap-video/1.1''
         else 0)
     + ((if list_ex uses_xhtml its
         then count_occurrences sub '' xmlns:xhtml="http://www.w3.org/1999/xhtml''
         else 0)
     + ((if list_ex uses_news its
         then count_occurrences sub '' xmlns:news="http://www.google.com/schemas/sitemap-news/0.9''
         else 0)
     + count_occurrences sub ''>\<newline>''))))\<close>
  unfolding urlsetStartTag_shape count_sep[OF assms] count_piece[OF assms] ..

lemma count_xmlns_image:
  "count_occurrences ''xmlns:image'' (urlsetStartTag its) = (if list_ex uses_images its then 1 else 0)"
  by (subst start_tag_count) simp_all

lemma count_xmlns_video:
  "count_occurrences ''xmlns:video'' (urlsetStartTag its) = (if list_ex uses_videos its then 1 else 0)"
  by (subst start_tag_count) simp_all

lemma count_xmlns_xhtml:
  "count_occurrences ''xmlns:xhtml'' (urlsetStartTag its) = (if list_ex uses_xhtml its then 1 else 0)"
  by (subst start_tag_count) simp_all

lemma count_xmlns_news:
  "count_occurrences ''xmlns:news'' (urlsetStartTag its) = (if list_ex uses_news its then 1 else 0)"
  by (subst start_tag_count) simp_all

lemma count_close_bracket:
  "count_occurrences ''>'' (urlsetStartTag its) = 1"
  by (subst start_tag_count) simp_all

lemma renderItems_acc:
  "renderItems P S i acc its = Ok r \<Longrightarrow>
   \<exists>ss. list_all2 (\<lambda>item s. renderSitemapItem P S item i = Ok s) its ss \<and> r = acc @ concat ss"
proof (induction its arbitrary: acc)
  case Nil
  then show ?case by simp
next
  case (Cons item its)
  from Cons.prems obtain s where s: "renderSitemapItem P S item i = Ok s"
    and r: "renderItems P S i (acc @ s) its = Ok r"
    by (auto split: result.splits)
  from Cons.IH[OF r] obtain ss where
    "list_all2 (\<lambda>item s. renderSitemapItem P S item i = Ok s) its ss" "r = (acc @ s) @ concat ss"
    by blast
  with s have "list_all2 (\<lambda>item s. renderSitemapItem P S item i = Ok s) (item # its) (s # ss)
               \<and> r = acc @ concat (s # ss)"
    by simp
  then show ?case by blast
qed

lemma toXML_shape:
  assumes "toXML P S options = Ok xml"
  shows "\<exists>ss. list_all2 (\<lambda>item s. renderSitemapItem P S item
                    (if (case ro_pretty options of Some b \<Rightarrow> b | None \<Rightarrow> pretty (config (model S)))
                     then 1 else 0) = Ok s) (getItems S) ss
              \<and> xml = xmlProlog S (case ro_stylesheet options of Some s \<Rightarrow> s
                                     | None \<Rightarrow> stylesheet (config (model S)))
                       @ urlsetStartTag (getItems S) @ concat ss @ ''</urlset>''"
proof -
  let ?i = "if (case ro_pretty options of Some b \<Rightarrow> b | None \<Rightarrow> pretty (config (model S)))
            then 1 else 0 :: nat"
  let ?head = "xmlProlog S (case ro_stylesheet options of Some s \<Rightarrow> s
                            | None \<Rightarrow> stylesheet (config (model S)))
               @ urlsetStartTag (getItems S)"
  from assms obtain r where r: "renderItems P S ?i ?head (getItems S) = Ok r"
    and x: "xml = r @ ''</urlset>''"
    by (auto simp: toXML_def Let_def getItems_def Model_getConfig_def split: result.splits)
  from renderItems_acc[OF r] obtain ss where
    "list_all2 (\<lambda>item s. renderSitemapItem P S item ?i = Ok s) (getItems S) ss"
    "r = ?head @ concat ss"
    by blast
  with x show ?thesis by auto
qed

lemma merge_default: "merge_config DEFAULT_CONFIG empty_config = DEFAULT_CONFIG"
  by (simp add: merge_config_def empty_config_def DEFAULT_CONFIG_def)

lemma sample_valid_url:
  "prefix ''https://example.com/'' u \<Longrightarrow> length u \<le> 2048 \<Longrightarrow> isValidUrl sample_platform u"
  by (auto simp: isValidUrl_def sample_platform_def sample_URL_new_def truthy_def Let_def)

lemma sample_URL_new_plain:
  "CHR ''#'' \<notin> set r \<Longrightarrow>
   sample_URL_new (''https://example.com/'' @ r) base
     = Some \<lparr>protocol = ''https:'', username = [], password = [], hostname = ''example.com'',
              port = [], pathname = CHR ''/'' # r, query = None, fragment = None\<rparr>"
proof -
  assume h: "CHR ''#'' \<notin> set r"
  then have t: "takeWhile (\<lambda>c. c \<noteq> CHR ''#'') r = r" "dropWhile (\<lambda>c. c \<noteq> CHR ''#'') r = []"
    by (auto simp: takeWhile_eq_all_conv dropWhile_eq_Nil_conv)
  show ?thesis
    using h by (simp add: sample_URL_new_def Let_def t)
qed

lemma sample_normalize_plain:
  "prefix ''https://example.com/'' u \<Longrightarrow> length u \<le> 2048 \<Longrightarrow> CHR ''#'' \<notin> set u \<Longrightarrow>
   normalizeUrl sample_platform u = u"
proof -
  assume p: "prefix ''https://example.com/'' u" and l: "length u \<le> 2048" and h: "CHR ''#'' \<notin> set u"
  from p obtain r where u: "u = ''https://example.com/'' @ r" by (auto simp: prefix_def)
  from h have hr: "CHR ''#'' \<notin> set r" by (simp add: u)
  have n: "URL_new sample_platform u None
        = Some \<lparr>protocol = ''https:'', username = [], password = [], hostname = ''example.com'',
                port = [], pathname = CHR ''/'' # r, query = None, fragment = None\<rparr>"
    unfolding u using sample_URL_new_plain[OF hr] by (simp add: sample_platform_def)
  have s: "URL_toString sample_platform
             \<lparr>protocol = ''https:'', username = [], password = [], hostname = ''example.com'',
                port = [], pathname = p, query = None, fragment = None\<rparr>
           = ''https://example.com'' @ p" for p
    by (simp add: sample_platform_def sample_URL_toString_def)
  show ?thesis
    using sample_valid_url[OF p l] by (simp add: normalizeUrl_def n Let_def s) (simp add: u)
qed

lemma escape_plain: "set s \<inter> set xml_metachars = {} \<Longrightarrow> Sitemap_escapeXml S s = s"
  using entity_noop[of s] by (auto simp: Sitemap_escapeXml_eq escapeXml_charwise)

lemma toXML_store2:
  \<open>toXML P store2 empty_options =
     Ok (''<?xml version="1.0" encoding="UTF-8"?>\<newline>''
       @ ''<urlset xmlns="http://www.sitemaps.org/schemas/sitemap/0.9"''
       @ '' xmlns:image="http://www.google.com/schemas/sitemap-image/1.1">\<newline>''
       @ ''<url>\<newline>''
       @ ''  <loc>https://example.com/i</loc>\<newline>''
       @ ''  <image:image>\<newline>''
       @ ''    <image:loc>https://example.com/i.png</image:loc>\<newline>''
       @ ''  </image:image>\<newline>''
       @ ''</url>\<newline>''
       @ ''</urlset>'')\<close>
proof -
  have e1: "Sitemap_escapeXml store2 ''https://example.com/i'' = ''https://example.com/i''"
    by (rule escape_plain) (simp add: xml_metachars_def)
  have e2: "Sitemap_escapeXml store2 ''https://example.com/i.png'' = ''https://example.com/i.png''"
    by (rule escape_plain) (simp add: xml_metachars_def)
  have t: "urlsetStartTag [item2] = ''<urlset xmlns=\"http://www.sitemaps.org/schemas/sitemap/0.9\" xmlns:image=\"http://www.google.com/schemas/sitemap-image/1.1\">\<newline>''"
    by (simp add: urlsetStartTag_def item2_def plain_item_def image0_def)
  have r: "renderSitemapItem P store2 item2 0 = Ok (''<url>\<newline>''
       @ ''  <loc>https://example.com/i</loc>\<newline>''
       @ ''  <image:image>\<newline>''
       @ ''    <image:loc>https://example.com/i.png</image:loc>\<newline>''
       @ ''  </image:image>\<newline>''
       @ ''</url>\<newline>'')"
    by (simp add: renderSitemapItem_def Let_def repeat_def item2_def plain_item_def renderImage_def
        image0_def plain_image_def e1[unfolded item2_def plain_item_def image0_def plain_image_def] e2 truthy_def)
  have g: "items (model store2) = [item2]"
    by (simp add: store2_def)
  have c: "stylesheet (config (model store2)) = []" "pretty (config (model store2)) = False"
    by (simp_all add: store2_def DEFAULT_CONFIG_def)
  show ?thesis
    by (simp add: toXML_def Model_getItems_def Model_getConfig_def empty_options_def xmlProlog_def
         truthy_def g c t r)
qed

text \<open>
  C3. Every document that \<open>toXML\<close> returns is the prolog, then the start tag of the root
  element, then the entries, then the end tag. The start tag is one tag; it declares the
  sitemap namespace and then, in this order, the image, video, xhtml and news namespaces,
  each exactly when some stored record uses the feature (for xhtml: has a translation or an
  alternate). So the name of each of the four declarations occurs in the root element
  once when a record uses the feature and not at all otherwise.
\<close>

theorem namespace_declarations:
  assumes "toXML P S options = Ok xml"
  shows \<open>render P S ''xml'' options = Ok xml
    \<and> (\<exists>body. xml = xmlProlog S (case ro_stylesheet options of Some s \<Rightarrow> s
                                       | None \<Rightarrow> stylesheet (config (model S)))
                        @ urlsetStartTag (getItems S) @ body @ ''</urlset>'')
    \<and> urlsetStartTag (getItems S) =
         ''<urlset xmlns="http://www.sitemaps.org/schemas/sitemap/0.9"''
         @ (if \<exists>item\<in>set (getItems S). uses_images item
            then '' xmlns:image="http://www.google.com/schemas/sitemap-image/1.1"'' else [])
         @ (if \<exists>item\<in>set (getItems S). uses_videos item
            then '' xmlns:video="http://www.google.com/schemas/sitemap-video/1.1"'' else [])
         @ (if \<exists>item\<in>set (getItems S). uses_xhtml item
            then '' xmlns:xhtml="http://www.w3.org/1999/xhtml"'' else [])
         @ (if \<exists>item\<in>set (getItems S). uses_news item
            then '' xmlns:news="http://www.google.com/schemas/sitemap-news/0.9"'' else [])
         @ ''>\<newline>''
    \<and> count_occurrences ''>'' (urlsetStartTag (getItems S)) = 1
    \<and> count_occurrences ''xmlns:image'' (urlsetStartTag (getItems S))
        = (if \<exists>item\<in>set (getItems S). uses_images item then 1 else 0)
    \<and> count_occurrences ''xmlns:video'' (urlsetStartTag (getItems S))
        = (if \<exists>item\<in>set (getItems S). uses_videos item then 1 else 0)
    \<and> count_occurrences ''xmlns:xhtml'' (urlsetStartTag (getItems S))
        = (if \<exists>item\<in>set (getItems S). uses_xhtml item then 1 else 0)
    \<and> count_occurrences ''xmlns:news'' (urlsetStartTag (getItems S))
        = (if \<exists>item\<in>set (getItems S). uses_news item then 1 else 0)\<close>
proof -
  from toXML_shape[OF assms]
  have a: "\<exists>body. xml = xmlProlog S (case ro_stylesheet options of Some s \<Rightarrow> s
                                       | None \<Rightarrow> stylesheet (config (model S)))
                        @ urlsetStartTag (getItems S) @ body @ ''</urlset>''"
    by blast
  note b = urlsetStartTag_shape'[of "getItems S"]
  have c: "count_occurrences ''>'' (urlsetStartTag (getItems S)) = 1"
    by (rule count_close_bracket)
  have i: "count_occurrences ''xmlns:image'' (urlsetStartTag (getItems S))
        = (if \<exists>item\<in>set (getItems S). uses_images item then 1 else 0)"
    by (simp add: count_xmlns_image list_ex_iff)
  have v: "count_occurrences ''xmlns:video'' (urlsetStartTag (getItems S))
        = (if \<exists>item\<in>set (getItems S). uses_videos item then 1 else 0)"
    by (simp add: count_xmlns_video list_ex_iff)
  have x: "count_occurrences ''xmlns:xhtml'' (urlsetStartTag (getItems S))
        = (if \<exists>item\<in>set (getItems S). uses_xhtml item then 1 else 0)"
    by (simp add: count_xmlns_xhtml list_ex_iff)
  have n: "count_occurrences ''xmlns:news'' (urlsetStartTag (getItems S))
        = (if \<exists>item\<in>set (getItems S). uses_news item then 1 else 0)"
    by (simp add: count_xmlns_news list_ex_iff)
  have r: "render P S ''xml'' options = Ok xml"
    using assms by (simp add: render_def)
  show ?thesis
    by (intro conjI r a b c i v x n)
qed

theorem namespace_declarations_witness:
  \<open>toXML sample_platform store2 empty_options =
     Ok (''<?xml version="1.0" encoding="UTF-8"?>\<newline>''
       @ ''<urlset xmlns="http://www.sitemaps.org/schemas/sitemap/0.9"''
       @ '' xmlns:image="http://www.google.com/schemas/sitemap-image/1.1">\<newline>''
       @ ''<url>\<newline>''
       @ ''  <loc>https://example.com/i</loc>\<newline>''
       @ ''  <image:image>\<newline>''
       @ ''    <image:loc>https://example.com/i.png</image:loc>\<newline>''
       @ ''  </image:image>\<newline>''
       @ ''</url>\<newline>''
       @ ''</urlset>'')
   \<and> getItems store2 = [item2] \<and> uses_images item2 \<and> \<not> uses_videos item2
   \<and> count_occurrences ''xmlns:image'' (urlsetStartTag (getItems store2)) = 1
   \<and> count_occurrences ''xmlns:video'' (urlsetStartTag (getItems store2)) = 0\<close>
proof -
  have g: "getItems store2 = [item2]"
    by (simp add: getItems_def Model_getItems_def store2_def)
  have i: "uses_images item2" and v: "\<not> uses_videos item2"
    by (simp_all add: uses_images_def uses_videos_def item2_def plain_item_def)
  note t = namespace_declarations[OF toXML_store2[of sample_platform]]
  have ci: "count_occurrences ''xmlns:image'' (urlsetStartTag (getItems store2)) = 1"
    using t[THEN conjunct2, THEN conjunct2, THEN conjunct2, THEN conjunct2, THEN conjunct1] i
    by (simp add: g)
  have cv: "count_occurrences ''xmlns:video'' (urlsetStartTag (getItems store2)) = 0"
    using t[THEN conjunct2, THEN conjunct2, THEN conjunct2, THEN conjunct2, THEN conjunct2,
            THEN conjunct1] v
    by (simp add: g)
  show ?thesis
    by (intro conjI toXML_store2 g i v ci cv)
qed

section \<open>Video text\<close>

lemma foldl_append_concat: "foldl (\<lambda>xml x. xml @ f x) acc xs = acc @ concat (map f xs)"
  by (induction xs arbitrary: acc) simp_all

lemma case_foldl_append:
  "(case xo of None \<Rightarrow> acc | Some xs \<Rightarrow> foldl (\<lambda>xml x. xml @ f x) acc xs)
     = acc @ (case xo of None \<Rightarrow> [] | Some xs \<Rightarrow> concat (map f xs))"
  by (cases xo) (simp_all add: foldl_append_concat)

lemma case_append_same:
  "(case xo of None \<Rightarrow> x | Some p \<Rightarrow> x @ g p) = x @ (case xo of None \<Rightarrow> [] | Some p \<Rightarrow> g p)"
  by (cases xo) simp_all

lemma middle_part: "s = (((x @ v) @ t) @ a) @ r \<Longrightarrow> \<exists>a' b'. s = a' @ v @ b'"
  by (metis append_assoc)

lemma renderSitemapItem_videos:
  assumes "renderSitemapItem P S item indent = Ok s" and "videos item = Some vs"
  shows "\<exists>a b. s = a @ concat (map (renderVideo P S (repeat ''  '' indent)) vs) @ b"
proof (cases "googlenews item")
  case None
  with assms show ?thesis
    apply -
    apply (simp only: renderSitemapItem_def if_append_same case_append_same case_foldl_append)
    apply (simp only: Let_def option.case result.inject)
    apply (rule middle_part)
    apply (erule sym)
    done
next
  case (Some news)
  show ?thesis
  proof (cases "Sitemap_formatDate P (news_publication_date news)")
    case (Ok pd)
    with assms Some show ?thesis
      apply -
      apply (simp only: renderSitemapItem_def if_append_same case_append_same case_foldl_append)
      apply (simp only: Let_def option.case result.case result.inject)
      apply (rule middle_part)
      apply (erule sym)
      done
  next
    case (Throw e)
    with assms Some show ?thesis
      by (simp add: renderSitemapItem_def Let_def)
  qed
qed

lemma sublist_concat: "x \<in> set xs \<Longrightarrow> sublist x (concat xs)"
proof -
  assume "x \<in> set xs"
  then obtain a b where "xs = a @ x # b" by (auto simp: in_set_conv_decomp)
  then have "concat xs = concat a @ x @ concat b" by simp
  then show ?thesis by simp
qed

lemma renderVideo_title:
  \<open>sublist (''<video:title><![CDATA['' @ video_title v @ '']]></video:title>'')
     (renderVideo P S ind v)\<close>
proof -
  have eq: \<open>''    <video:title><![CDATA['' @ t @ '']]></video:title>\<newline>'' @ r
            = ''    '' @ (''<video:title><![CDATA['' @ t @ '']]></video:title>'') @ (''\<newline>'' @ r)\<close>
    for t r :: string
    by simp
  show ?thesis
    unfolding renderVideo_def
    apply (rule sublist_appendL, rule sublist_appendL, rule sublist_appendL, rule sublist_appendL,
           rule sublist_appendL, rule sublist_appendL, rule sublist_appendL)
    apply (simp only: eq sublist_appendI)
    done
qed

lemma renderVideo_description:
  \<open>sublist (''<video:description><![CDATA['' @ video_description v @ '']]></video:description>'')
     (renderVideo P S ind v)\<close>
proof -
  have eq: \<open>''    <video:description><![CDATA['' @ t @ '']]></video:description>\<newline>'' @ r
            = ''    '' @ (''<video:description><![CDATA['' @ t @ '']]></video:description>'')
              @ (''\<newline>'' @ r)\<close>
    for t r :: string
    by simp
  show ?thesis
    unfolding renderVideo_def
    apply (rule sublist_appendL, rule sublist_appendL, rule sublist_appendL, rule sublist_appendL,
           rule sublist_appendL, rule sublist_appendL, rule sublist_appendL, rule sublist_appendL,
           rule sublist_appendL, rule sublist_appendL, rule sublist_appendL)
    apply (simp only: eq sublist_appendI)
    done
qed

lemma rendered_video_in_xml:
  assumes "toXML P S options = Ok xml" and "item \<in> set (getItems S)"
    and "videos item = Some vs" and "v \<in> set vs"
  shows "\<exists>ind. sublist (renderVideo P S ind v) xml"
proof -
  from toXML_shape[OF assms(1)] obtain ss i where
    l: "list_all2 (\<lambda>item s. renderSitemapItem P S item i = Ok s) (getItems S) ss"
    and x: "xml = xmlProlog S (case ro_stylesheet options of Some s \<Rightarrow> s
                               | None \<Rightarrow> stylesheet (config (model S)))
                  @ urlsetStartTag (getItems S) @ concat ss @ ''</urlset>''"
    by blast
  from assms(2) obtain n where n: "n < length (getItems S)" "getItems S ! n = item"
    by (auto simp: in_set_conv_nth)
  with l have s: "renderSitemapItem P S item i = Ok (ss ! n)" "n < length ss"
    by (auto simp: list_all2_conv_all_nth)
  from renderSitemapItem_videos[OF s(1) assms(3)] obtain a b where
    "ss ! n = a @ concat (map (renderVideo P S (repeat ''  '' i)) vs) @ b"
    by blast
  then have "sublist (concat (map (renderVideo P S (repeat ''  '' i)) vs)) (ss ! n)"
    by simp
  moreover have "sublist (renderVideo P S (repeat ''  '' i) v)
                   (concat (map (renderVideo P S (repeat ''  '' i)) vs))"
    using assms(4) by (intro sublist_concat) simp
  moreover have "sublist (ss ! n) (concat ss)"
    using s(2) by (intro sublist_concat) simp
  moreover have "sublist (concat ss) xml"
    unfolding x by (rule sublist_appendL, rule sublist_appendL, rule sublist_appendR) simp
  ultimately have "sublist (renderVideo P S (repeat ''  '' i) v) xml"
    using sublist_order.order_trans by blast
  then show ?thesis by blast
qed

lemma add_video0:
  "add sample_platform (Sitemap_new empty_config) ''https://example.com/v'' None None None
     (no_options\<lparr>opt_videos := Some [video0]\<rparr>) = (Ok (), store1)"
proof -
  have n: "normalizeUrl sample_platform ''https://example.com/v'' = ''https://example.com/v''"
    by (rule sample_normalize_plain) simp_all
  have i: "add_item sample_platform DEFAULT_CONFIG ''https://example.com/v'' None None None
              (no_options\<lparr>opt_videos := Some [video0]\<rparr>) = Ok item1"
    by (simp add: add_item_def n DEFAULT_CONFIG_def truthy_def no_options_def item1_def plain_item_def)
  have u1: "isValidUrl sample_platform ''https://example.com/v''"
    by (rule sample_valid_url) simp_all
  have u2: "isValidUrl sample_platform ''https://example.com/t.png''"
    by (rule sample_valid_url) simp_all
  have v: "validateItem sample_platform item1 = []"
    by (simp add: validateItem_def item1_def plain_item_def truthy_def u1 indexed_errors_def
        validateVideoItem_def video0_def plain_video_def u2)
  show ?thesis
    by (simp add: add_def Model_getConfig_def Sitemap_new_def Model_new_def merge_default i v
        Model_addItem_def store1_def)
qed

lemma toXML_store1:
  \<open>toXML P store1 empty_options =
     Ok (''<?xml version="1.0" encoding="UTF-8"?>\<newline>''
       @ ''<urlset xmlns="http://www.sitemaps.org/schemas/sitemap/0.9"''
       @ '' xmlns:video="http://www.google.com/schemas/sitemap-video/1.1">\<newline>''
       @ ''<url>\<newline>''
       @ ''  <loc>https://example.com/v</loc>\<newline>''
       @ ''  <video:video>\<newline>''
       @ ''    <video:thumbnail_loc>https://example.com/t.png</video:thumbnail_loc>\<newline>''
       @ ''    <video:title><![CDATA[a]]>b]]></video:title>\<newline>''
       @ ''    <video:description><![CDATA[d]]></video:description>\<newline>''
       @ ''  </video:video>\<newline>''
       @ ''</url>\<newline>''
       @ ''</urlset>'')\<close>
proof -
  have e1: "Sitemap_escapeXml store1 ''https://example.com/v'' = ''https://example.com/v''"
    by (rule escape_plain) (simp add: xml_metachars_def)
  have e2: "Sitemap_escapeXml store1 ''https://example.com/t.png'' = ''https://example.com/t.png''"
    by (rule escape_plain) (simp add: xml_metachars_def)
  have t: "urlsetStartTag [item1] = ''<urlset xmlns=\"http://www.sitemaps.org/schemas/sitemap/0.9\" xmlns:video=\"http://www.google.com/schemas/sitemap-video/1.1\">\<newline>''"
    by (simp add: urlsetStartTag_def item1_def plain_item_def)
  have r: "renderSitemapItem P store1 item1 0 = Ok (''<url>\<newline>''
       @ ''  <loc>https://example.com/v</loc>\<newline>''
       @ ''  <video:video>\<newline>''
       @ ''    <video:thumbnail_loc>https://example.com/t.png</video:thumbnail_loc>\<newline>''
       @ ''    <video:title><![CDATA[a]]>b]]></video:title>\<newline>''
       @ ''    <video:description><![CDATA[d]]></video:description>\<newline>''
       @ ''  </video:video>\<newline>''
       @ ''</url>\<newline>'')"
    by (simp add: renderSitemapItem_def Let_def repeat_def item1_def plain_item_def renderVideo_def
        video0_def plain_video_def e1[unfolded item1_def plain_item_def video0_def plain_video_def] e2 truthy_def)
  have g: "items (model store1) = [item1]"
    by (simp add: store1_def)
  have c: "stylesheet (config (model store1)) = []" "pretty (config (model store1)) = False"
    by (simp_all add: store1_def DEFAULT_CONFIG_def)
  show ?thesis
    by (simp add: toXML_def Model_getItems_def Model_getConfig_def empty_options_def xmlProlog_def
         truthy_def g c t r)
qed

text \<open>
  C10. The title and the description of every video of every stored record stand in the
  rendered document exactly as they are, between \<open><![CDATA[\<close> and \<open>]]>\<close>: nothing is
  escaped and the terminator of a CDATA section is not guarded. The store accepts, with
  validation enabled, a video whose title contains \<open>]]>\<close>, and the document then has that
  title raw inside the section, where \<open>wrapCDATA\<close> would have written \<open>]]&gt;\<close>.
\<close>

theorem video_text_verbatim_in_CDATA:
  assumes "toXML P S options = Ok xml" and "item \<in> set (getItems S)"
    and "videos item = Some vs" and "v \<in> set vs"
  shows \<open>sublist (''<video:title><![CDATA['' @ video_title v @ '']]></video:title>'') xml
     \<and> sublist (''<video:description><![CDATA['' @ video_description v
                  @ '']]></video:description>'') xml\<close>
proof -
  from rendered_video_in_xml[OF assms] obtain ind where "sublist (renderVideo P S ind v) xml"
    by blast
  with renderVideo_title[of v P S ind] renderVideo_description[of v P S ind]
  show ?thesis
    using sublist_order.order_trans by blast
qed

theorem video_text_verbatim_in_CDATA_witness:
  \<open>add sample_platform (Sitemap_new empty_config) ''https://example.com/v'' None None None
      (no_options\<lparr>opt_videos := Some [video0]\<rparr>) = (Ok (), store1)
   \<and> toXML sample_platform store1 empty_options =
     Ok (''<?xml version="1.0" encoding="UTF-8"?>\<newline>''
       @ ''<urlset xmlns="http://www.sitemaps.org/schemas/sitemap/0.9"''
       @ '' xmlns:video="http://www.google.com/schemas/sitemap-video/1.1">\<newline>''
       @ ''<url>\<newline>''
       @ ''  <loc>https://example.com/v</loc>\<newline>''
       @ ''  <video:video>\<newline>''
       @ ''    <video:thumbnail_loc>https://example.com/t.png</video:thumbnail_loc>\<newline>''
       @ ''    <video:title><![CDATA[a]]>b]]></video:title>\<newline>''
       @ ''    <video:description><![CDATA[d]]></video:description>\<newline>''
       @ ''  </video:video>\<newline>''
       @ ''</url>\<newline>''
       @ ''</urlset>'')
   \<and> item1 \<in> set (getItems store1) \<and> videos item1 = Some [video0]
   \<and> video_title video0 = ''a]]>b'' \<and> sublist '']]>'' (video_title video0)
   \<and> (\<exists>xml. toXML sample_platform store1 empty_options = Ok xml
          \<and> sublist ''<video:title><![CDATA[a]]>b]]></video:title>'' xml)
   \<and> wrapCDATA ''a]]>b'' = ''<![CDATA[a]]&gt;b]]>''\<close>
proof -
  have g: "item1 \<in> set (getItems store1)"
    by (simp add: getItems_def Model_getItems_def store1_def)
  have v: "videos item1 = Some [video0]"
    by (simp add: item1_def)
  have m: "video0 \<in> set [video0]"
    by simp
  have t: "video_title video0 = ''a]]>b''"
    by (simp add: video0_def plain_video_def)
  have s: "sublist '']]>'' (video_title video0)"
    unfolding t by (simp add: sublist_Cons_right)
  from video_text_verbatim_in_CDATA[OF toXML_store1[of sample_platform] g v m]
  have "sublist (''<video:title><![CDATA['' @ video_title video0 @ '']]></video:title>'')
          (''<?xml version=\"1.0\" encoding=\"UTF-8\"?>\<newline>''
       @ ''<urlset xmlns=\"http://www.sitemaps.org/schemas/sitemap/0.9\"''
       @ '' xmlns:video=\"http://www.google.com/schemas/sitemap-video/1.1\">\<newline>''
       @ ''<url>\<newline>''
       @ ''  <loc>https://example.com/v</loc>\<newline>''
       @ ''  <video:video>\<newline>''
       @ ''    <video:thumbnail_loc>https://example.com/t.png</video:thumbnail_loc>\<newline>''
       @ ''    <video:title><![CDATA[a]]>b]]></video:title>\<newline>''
       @ ''    <video:description><![CDATA[d]]></video:description>\<newline>''
       @ ''  </video:video>\<newline>''
       @ ''</url>\<newline>''
       @ ''</urlset>'')"
    by (rule conjunct1)
  then have x: "\<exists>xml. toXML sample_platform store1 empty_options = Ok xml
          \<and> sublist ''<video:title><![CDATA[a]]>b]]></video:title>'' xml"
    using toXML_store1[of sample_platform] unfolding t by simp
  have w: "wrapCDATA ''a]]>b'' = ''<![CDATA[a]]&gt;b]]>''"
    by (simp add: wrapCDATA_def str_includes_def sublist_Cons_right Let_def)
  show ?thesis
    by (intro conjI add_video0 toXML_store1 g v t s x w)
qed

section \<open>The limit of the sitemap index\<close>

lemma addSitemap_throw_unchanged:
  "fst (addSitemap P I l d) = Throw e \<Longrightarrow> snd (addSitemap P I l d) = I"
  by (auto simp: addSitemap_def Let_def split: option.splits datelike.splits result.splits if_splits)

lemma addSitemap_config:
  "index_config (snd (addSitemap P I l d)) = index_config I"
  by (auto simp: addSitemap_def Let_def split: option.splits datelike.splits result.splits)

lemma addSitemap_at_limit:
  "num_ge (num_of_nat (length (index_items I))) (maxSitemaps (index_config I)) \<Longrightarrow>
   \<exists>e. addSitemap P I l d = (Throw e, I)"
  by (auto simp: addSitemap_def Let_def split: option.splits datelike.splits result.splits)

lemma addSitemap_count:
  assumes "maxSitemaps (index_config I) = Fin (of_nat m)" and "length (index_items I) \<le> m"
  shows "length (index_items (snd (addSitemap P I l d))) \<le> m"
proof -
  have "length (index_items I) < m"
    if "\<not> num_ge (num_of_nat (length (index_items I))) (maxSitemaps (index_config I))"
    using that assms by (simp add: num_ge_def num_of_nat_def)
  then show ?thesis
    using assms(2)
    by (auto simp: addSitemap_def Let_def split: option.splits datelike.splits result.splits)
qed

lemma addSitemaps_inv:
  assumes "maxSitemaps (index_config I) = Fin (of_nat m)" and "length (index_items I) \<le> m"
  shows "length (index_items (snd (addSitemaps P I xs))) \<le> m
         \<and> index_config (snd (addSitemaps P I xs)) = index_config I"
  using assms
proof (induction xs arbitrary: I)
  case Nil
  then show ?case by simp
next
  case (Cons x xs)
  let ?r = "addSitemap P I (index_loc x) (index_lastmod x)"
  have c: "index_config (snd ?r) = index_config I" by (rule addSitemap_config)
  have l: "length (index_items (snd ?r)) \<le> m" using Cons.prems by (rule addSitemap_count)
  show ?case
  proof (cases "fst ?r")
    case (Ok u)
    then have "addSitemaps P I (x # xs) = addSitemaps P (snd ?r) xs"
      by (cases ?r) simp
    with Cons.IH[of "snd ?r"] c l Cons.prems show ?thesis by simp
  next
    case (Throw e)
    then have "addSitemaps P I (x # xs) = (Throw e, snd ?r)"
      by (cases ?r) simp
    with c l show ?thesis by simp
  qed
qed

lemma index_step_inv:
  assumes "maxSitemaps (index_config I) = Fin (of_nat m)" and "length (index_items I) \<le> m"
  shows "length (index_items (index_step P I c)) \<le> m
         \<and> index_config (index_step P I c) = index_config I"
proof (cases c)
  case (AddSitemap l d)
  with assms show ?thesis by (simp add: addSitemap_count addSitemap_config)
next
  case (AddSitemaps xs)
  with addSitemaps_inv[OF assms] show ?thesis by simp
next
  case (ResetSitemaps xs)
  have "maxSitemaps (index_config (I\<lparr>index_items := []\<rparr>)) = Fin (of_nat m)"
    "length (index_items (I\<lparr>index_items := []\<rparr>)) \<le> m"
    using assms by simp_all
  from addSitemaps_inv[OF this] ResetSitemaps show ?thesis
    by (simp add: resetSitemaps_def)
next
  case (RemoveSitemaps p)
  have "length (filter (\<lambda>item. \<not> p item) (index_items I)) \<le> length (index_items I)"
    by (rule length_filter_le)
  with assms(2) have "length (filter (\<lambda>item. \<not> p item) (index_items I)) \<le> m"
    by linarith
  with RemoveSitemaps show ?thesis by (simp add: removeSitemaps_def)
next
  case Clear
  with assms show ?thesis by (simp add: SitemapIndex_clear_def)
qed

lemma index_run_inv:
  assumes "maxSitemaps (index_config I) = Fin (of_nat m)" and "length (index_items I) \<le> m"
  shows "length (index_items (index_run P I calls)) \<le> m
         \<and> index_config (index_run P I calls) = index_config I"
  using assms unfolding index_run_def
proof (induction calls arbitrary: I)
  case Nil
  then show ?case by simp
next
  case (Cons c calls)
  from index_step_inv[OF Cons.prems]
  have s: "length (index_items (index_step P I c)) \<le> m"
    "index_config (index_step P I c) = index_config I"
    by simp_all
  from Cons.IH[of "index_step P I c"] s Cons.prems(1) show ?case by simp
qed

lemma index_of_limit_simps:
  "index_items (index_of_limit r) = []"
  "maxSitemaps (index_config (index_of_limit r)) = Fin r"
  "index_validate (index_config (index_of_limit r)) = True"
  "index_baseUrl (index_config (index_of_limit r)) = []"
  by (simp_all add: index_of_limit_def SitemapIndex_new_def merge_index_config_def
      empty_index_config_def INDEX_DEFAULT_CONFIG_def)

lemma addSitemap_sample:
  assumes "prefix ''https://example.com/'' u" and "length u \<le> 2048" and "CHR ''#'' \<notin> set u"
    and "index_baseUrl (index_config I) = []"
  shows "addSitemap sample_platform I u None =
           (if num_ge (num_of_nat (length (index_items I))) (maxSitemaps (index_config I))
            then (Throw (Error (''Maximum number of sitemaps (''
                   @ Number_toString sample_platform (maxSitemaps (index_config I))
                   @ '') exceeded'')), I)
            else (Ok (), I\<lparr>index_items := index_items I
                              @ [\<lparr>index_loc = u, index_lastmod = None\<rparr>]\<rparr>))"
proof -
  have n: "normalizeUrl sample_platform u = u"
    using assms(1-3) by (rule sample_normalize_plain)
  have v: "isValidUrl sample_platform u"
    using assms(1,2) by (rule sample_valid_url)
  show ?thesis
    by (simp add: addSitemap_def Let_def n v assms(4) truthy_def validateSitemapItem_def)
qed

lemma sample_number_2: "Number_toString sample_platform (Fin 2) = ''2''"
  by code_simp

lemma run_three_adds:
  "index_items (index_run sample_platform (index_of_limit r) three_adds) =
     (if r \<le> 0 then []
      else if r \<le> 1 then [\<lparr>index_loc = ''https://example.com/1.xml'', index_lastmod = None\<rparr>]
      else if r \<le> 2 then [\<lparr>index_loc = ''https://example.com/1.xml'', index_lastmod = None\<rparr>,
                           \<lparr>index_loc = ''https://example.com/2.xml'', index_lastmod = None\<rparr>]
      else [\<lparr>index_loc = ''https://example.com/1.xml'', index_lastmod = None\<rparr>,
            \<lparr>index_loc = ''https://example.com/2.xml'', index_lastmod = None\<rparr>,
            \<lparr>index_loc = ''https://example.com/3.xml'', index_lastmod = None\<rparr>])"
  by (simp add: index_run_def three_adds_def addSitemap_sample index_of_limit_simps
      num_ge_def num_of_nat_def)

lemma addSitemap_at_limit_error:
  assumes "num_ge (num_of_nat (length (index_items I))) (maxSitemaps (index_config I))"
  shows "\<exists>e. addSitemap P I l d = (Throw e, I)
           \<and> (e = Error (''Maximum number of sitemaps (''
                          @ Number_toString P (maxSitemaps (index_config I)) @ '') exceeded'')
               \<or> (\<exists>msg. e = Error (''Validation failed: '' @ msg))
               \<or> e = Error ''Invalid Date object'')"
proof (cases d)
  case None
  with assms show ?thesis by (simp add: addSitemap_def Let_def)
next
  case (Some x)
  show ?thesis
  proof (cases x)
    case (DateString s)
    with Some assms show ?thesis by (simp add: addSitemap_def Let_def)
  next
    case (DateObject dt)
    show ?thesis
    proof (cases "getTime dt")
      case None
      with Some DateObject show ?thesis by (simp add: addSitemap_def Let_def)
    next
      case (Some t)
      with \<open>d = Some x\<close> DateObject assms show ?thesis by (simp add: addSitemap_def Let_def)
    qed
  qed
qed

lemma limit_validation_first:
  "fst (addSitemap sample_platform
          (index_run sample_platform (index_of_limit 2) (butlast three_adds)) ''bad'' None)
     = Throw (Error ''Validation failed: loc: Invalid URL format'')"
proof -
  let ?J = "index_run sample_platform (index_of_limit 2) (butlast three_adds)"
  have j: "index_config ?J = index_config (index_of_limit 2)"
    using index_run_inv[of "index_of_limit 2" 2 sample_platform "butlast three_adds"]
    by (simp add: index_of_limit_simps)
  show ?thesis
    by (simp add: addSitemap_def Let_def j index_of_limit_simps truthy_def
        validateSitemapItem_def errorMessages_def mk_error_def)
qed

text \<open>
  C9, as amended. For an index whose \<open>maxSitemaps\<close> is a natural number \<open>m\<close> and whose
  list has at most \<open>m\<close> entries (a new index has none), the list has at most \<open>m\<close> entries
  after any sequence of \<open>addSitemap\<close>, \<open>addSitemaps\<close>, \<open>resetSitemaps\<close>,
  \<open>removeSitemaps\<close> and \<open>clear\<close>, none of which changes the configuration. When the count
  has reached the limit \<open>addSitemap\<close> throws and appends nothing: it throws the limit
  error, unless formatting the date or validation, which come first, throw theirs.
  Whenever it throws the index is unchanged.
\<close>

theorem index_count_within_limit:
  assumes "maxSitemaps (index_config I) = Fin (of_nat m)" and "getSitemapCount I \<le> m"
  shows "getSitemapCount (index_run P I calls) \<le> m
    \<and> maxSitemaps (index_config (index_run P I calls)) = Fin (of_nat m)
    \<and> \<not> num_gt (num_of_nat (getSitemapCount (index_run P I calls)))
            (maxSitemaps (index_config (index_run P I calls)))
    \<and> getSitemapCount (SitemapIndex_new c) = 0
    \<and> (num_ge (num_of_nat (getSitemapCount I)) (maxSitemaps (index_config I))
         \<longrightarrow> (\<exists>e. addSitemap P I l d = (Throw e, I)))
    \<and> (\<forall>e. fst (addSitemap P I l d) = Throw e \<longrightarrow> snd (addSitemap P I l d) = I)
    \<and> (num_ge (num_of_nat (getSitemapCount I)) (maxSitemaps (index_config I))
         \<longrightarrow> (\<exists>e. addSitemap P I l d = (Throw e, I)
                \<and> (e = Error (''Maximum number of sitemaps (''
                               @ Number_toString P (maxSitemaps (index_config I))
                               @ '') exceeded'')
                    \<or> (\<exists>msg. e = Error (''Validation failed: '' @ msg))
                    \<or> e = Error ''Invalid Date object'')))"
proof -
  from index_run_inv[OF assms(1), of P calls] assms(2)
  have a: "getSitemapCount (index_run P I calls) \<le> m"
    and b: "maxSitemaps (index_config (index_run P I calls)) = Fin (of_nat m)"
    by (simp_all add: getSitemapCount_def assms(1))
  have c: "\<not> num_gt (num_of_nat (getSitemapCount (index_run P I calls)))
            (maxSitemaps (index_config (index_run P I calls)))"
    using a by (simp add: b num_gt_def num_of_nat_def)
  have d: "getSitemapCount (SitemapIndex_new c) = 0"
    by (simp add: getSitemapCount_def SitemapIndex_new_def)
  have e: "num_ge (num_of_nat (getSitemapCount I)) (maxSitemaps (index_config I))
         \<longrightarrow> (\<exists>e. addSitemap P I l d = (Throw e, I))"
    using addSitemap_at_limit[of I P l d] by (simp add: getSitemapCount_def)
  have f: "\<forall>e. fst (addSitemap P I l d) = Throw e \<longrightarrow> snd (addSitemap P I l d) = I"
    using addSitemap_throw_unchanged by blast
  have g: "num_ge (num_of_nat (getSitemapCount I)) (maxSitemaps (index_config I))
         \<longrightarrow> (\<exists>e. addSitemap P I l d = (Throw e, I)
                \<and> (e = Error (''Maximum number of sitemaps (''
                               @ Number_toString P (maxSitemaps (index_config I))
                               @ '') exceeded'')
                    \<or> (\<exists>msg. e = Error (''Validation failed: '' @ msg))
                    \<or> e = Error ''Invalid Date object''))"
    using addSitemap_at_limit_error[of I P l d] by (simp add: getSitemapCount_def)
  show ?thesis
    by (intro conjI a b c d e f g)
qed

theorem index_count_within_limit_witness:
  "maxSitemaps (index_config (index_of_limit 2)) = Fin (of_nat 2)
   \<and> getSitemapCount (index_of_limit 2) \<le> 2
   \<and> getSitemapCount (index_run sample_platform (index_of_limit 2) three_adds) \<le> 2
   \<and> getSitemapCount (index_run sample_platform (index_of_limit 2) three_adds) = 2
   \<and> num_ge (num_of_nat (getSitemapCount
              (index_run sample_platform (index_of_limit 2) (butlast three_adds))))
        (maxSitemaps (index_config
              (index_run sample_platform (index_of_limit 2) (butlast three_adds))))
   \<and> fst (addSitemap sample_platform
              (index_run sample_platform (index_of_limit 2) (butlast three_adds))
              ''https://example.com/3.xml'' None)
       = Throw (Error ''Maximum number of sitemaps (2) exceeded'')
   \<and> snd (addSitemap sample_platform
              (index_run sample_platform (index_of_limit 2) (butlast three_adds))
              ''https://example.com/3.xml'' None)
       = index_run sample_platform (index_of_limit 2) (butlast three_adds)"
proof -
  let ?I = "index_of_limit 2"
  let ?J = "index_run sample_platform ?I (butlast three_adds)"
  have a: "maxSitemaps (index_config ?I) = Fin (of_nat 2)"
    by (simp add: index_of_limit_simps)
  have b: "getSitemapCount ?I \<le> 2"
    by (simp add: getSitemapCount_def index_of_limit_simps)
  note t = index_count_within_limit[OF a b, of sample_platform]
  have c: "getSitemapCount (index_run sample_platform ?I three_adds) \<le> 2"
    using t[of three_adds] by blast
  have d: "getSitemapCount (index_run sample_platform ?I three_adds) = 2"
    by (simp add: getSitemapCount_def run_three_adds)
  have j: "index_items ?J = [\<lparr>index_loc = ''https://example.com/1.xml'', index_lastmod = None\<rparr>,
                           \<lparr>index_loc = ''https://example.com/2.xml'', index_lastmod = None\<rparr>]"
    "index_config ?J = index_config ?I"
    by (simp_all add: index_run_def three_adds_def addSitemap_sample index_of_limit_simps
      num_ge_def num_of_nat_def)
  have e: "num_ge (num_of_nat (getSitemapCount ?J)) (maxSitemaps (index_config ?J))"
    by (simp add: getSitemapCount_def j index_of_limit_simps num_ge_def num_of_nat_def)
  have f: "fst (addSitemap sample_platform ?J ''https://example.com/3.xml'' None)
       = Throw (Error ''Maximum number of sitemaps (2) exceeded'')"
    by (subst addSitemap_sample)
      (simp_all add: j index_of_limit_simps num_ge_def num_of_nat_def sample_number_2)
  have "\<exists>e. fst (addSitemap sample_platform ?J ''https://example.com/3.xml'' None) = Throw e"
    using f by blast
  then have g: "snd (addSitemap sample_platform ?J ''https://example.com/3.xml'' None) = ?J"
    using addSitemap_throw_unchanged by blast
  show ?thesis
    by (intro conjI a b c d e f g)
qed

text \<open>
  The claim as stated, for every index, fails where \<open>maxSitemaps\<close> is not a natural
  number: with \<open>maxSitemaps = -1\<close> the empty list of a new index already exceeds the limit,
  and with \<open>maxSitemaps = 2.5\<close> the third \<open>addSitemap\<close> still passes the check
  \<open>length >= maxSitemaps\<close> and the list reaches three entries. And at the limit
  \<open>addSitemap\<close> does not always throw the limit error: validation comes before the check
  of the limit, so an invalid URL gets the validation error.
\<close>

theorem index_count_exceeds_limit:
  "maxSitemaps (index_config (index_of_limit (- 1))) = Fin (- 1)
   \<and> getSitemapCount (index_run sample_platform (index_of_limit (- 1)) []) = 0
   \<and> num_gt (num_of_nat (getSitemapCount (index_run sample_platform (index_of_limit (- 1)) [])))
        (maxSitemaps (index_config (index_run sample_platform (index_of_limit (- 1)) [])))
   \<and> maxSitemaps (index_config (index_of_limit (5 / 2))) = Fin (5 / 2)
   \<and> getSitemapCount (index_run sample_platform (index_of_limit (5 / 2)) three_adds) = 3
   \<and> num_gt (num_of_nat (getSitemapCount
              (index_run sample_platform (index_of_limit (5 / 2)) three_adds)))
        (maxSitemaps (index_config (index_of_limit (5 / 2))))
   \<and> getSitemapCount (index_run sample_platform (index_of_limit 2) (butlast three_adds)) = 2
   \<and> maxSitemaps (index_config
         (index_run sample_platform (index_of_limit 2) (butlast three_adds))) = Fin 2
   \<and> fst (addSitemap sample_platform
            (index_run sample_platform (index_of_limit 2) (butlast three_adds)) ''bad'' None)
       = Throw (Error ''Validation failed: loc: Invalid URL format'')"
proof -
  have a: "maxSitemaps (index_config (index_of_limit (- 1))) = Fin (- 1)"
    by (simp add: index_of_limit_simps)
  have b: "getSitemapCount (index_run sample_platform (index_of_limit (- 1)) []) = 0"
    by (simp add: getSitemapCount_def index_run_def index_of_limit_simps)
  have c: "num_gt (num_of_nat (getSitemapCount (index_run sample_platform (index_of_limit (- 1)) [])))
        (maxSitemaps (index_config (index_run sample_platform (index_of_limit (- 1)) [])))"
    by (simp add: getSitemapCount_def index_run_def index_of_limit_simps num_gt_def num_of_nat_def)
  have d: "maxSitemaps (index_config (index_of_limit (5 / 2))) = Fin (5 / 2)"
    by (simp add: index_of_limit_simps)
  have e: "getSitemapCount (index_run sample_platform (index_of_limit (5 / 2)) three_adds) = 3"
    by (simp add: getSitemapCount_def run_three_adds)
  have f: "num_gt (num_of_nat (getSitemapCount
              (index_run sample_platform (index_of_limit (5 / 2)) three_adds)))
        (maxSitemaps (index_config (index_of_limit (5 / 2))))"
    by (simp add: e index_of_limit_simps num_gt_def num_of_nat_def)
  have g: "getSitemapCount (index_run sample_platform (index_of_limit 2) (butlast three_adds)) = 2"
    by (simp add: getSitemapCount_def index_run_def three_adds_def addSitemap_sample
        index_of_limit_simps num_ge_def num_of_nat_def)
  have h: "maxSitemaps (index_config
         (index_run sample_platform (index_of_limit 2) (butlast three_adds))) = Fin 2"
    using index_run_inv[of "index_of_limit 2" 2 sample_platform "butlast three_adds"]
    by (simp add: index_of_limit_simps)
  show ?thesis
    by (intro conjI a b c d e f g h limit_validation_first)
qed

section \<open>Reading the record list\<close>

lemma getItems_fresh:
  assumes "allocated h m" and "ModelObject_getItems h m = (a, h')"
  shows "a \<noteq> items_ref m" and "array_elems h' a = array_elems h (items_ref m)"
    and "array_elems h' (items_ref m) = array_elems h (items_ref m)"
    and "records h' = records h"
  using assms
  by (auto simp: allocated_def ModelObject_getItems_def new_array_def array_elems_def)

lemma array_write_other:
  "a \<noteq> b \<Longrightarrow> array_records (array_write h a rs) b = array_records h b"
  by (simp add: array_records_def array_write_def array_elems_def)

text \<open>
  C1, as amended. \<open>Model.getItems\<close> returns a new array with the elements of the array of
  the model, and \<open>Sitemap.getItems\<close> hands that array on. Whatever a client does to the returned array (adding, removing or replacing
  elements), the records the model holds and their count stay as they were. The elements
  are references to the records of the model itself: a client that changes a record it
  reached through the returned array changes that record in the model.
\<close>

theorem getItems_returns_fresh_array:
  assumes "allocated h m" and "ModelObject_getItems h m = (a, h')"
  shows "a \<noteq> items_ref m
    \<and> array_elems h' a = array_elems h (items_ref m)
    \<and> array_records h' a = stored_records h m
    \<and> stored_records h' m = stored_records h m
    \<and> (\<forall>rs. stored_records (array_write h' a rs) m = stored_records h m)
    \<and> (\<forall>rs. ModelObject_getItemCount (array_write h' a rs) m = ModelObject_getItemCount h m)
    \<and> (\<forall>r item. stored_records (record_write h' r item) m
          = map (\<lambda>x. if x = r then Some item else records h x) (array_elems h (items_ref m)))"
proof -
  note f = getItems_fresh[OF assms]
  have 1: "array_records h' a = stored_records h m"
    by (simp add: array_records_def stored_records_def f)
  have 2: "stored_records h' m = stored_records h m"
    by (simp add: array_records_def stored_records_def f)
  have 3: "stored_records (array_write h' a rs) m = stored_records h m" for rs
    using array_write_other[OF f(1), of h' rs] 2 by (simp add: stored_records_def)
  have 4: "ModelObject_getItemCount (array_write h' a rs) m = ModelObject_getItemCount h m" for rs
    using f(1) by (simp add: ModelObject_getItemCount_def array_write_def array_elems_def f(3)[unfolded array_elems_def])
  have 5: "stored_records (record_write h' r item) m
          = map (\<lambda>x. if x = r then Some item else records h x) (array_elems h (items_ref m))"
    for r item
    by (simp add: stored_records_def array_records_def record_write_def array_elems_def
        f(3)[unfolded array_elems_def] f(4))
  show ?thesis
    using f(1,2) 1 2 3 4 5 by blast
qed

lemma heap0_simps:
  "items_ref model0 = 0" "next_ref heap0 = 2" "arrays heap0 0 = Some [1]"
  "records heap0 (Suc 0) = Some (plain_item ''https://example.com/'')"
  by (simp_all add: model0_def heap0_def new_array_def new_record_def empty_heap_def
      ModelObject_addItem_def array_elems_def Let_def)

lemma getItems_heap0:
  "ModelObject_getItems heap0 model0
     = (2, heap0\<lparr>arrays := (arrays heap0)(2 \<mapsto> [1]), next_ref := 3\<rparr>)"
  by (simp add: ModelObject_getItems_def new_array_def array_elems_def heap0_simps)

theorem getItems_returns_fresh_array_witness:
  "allocated heap0 model0
   \<and> fst (ModelObject_getItems heap0 model0) = 2
   \<and> stored_records heap0 model0 = [Some (plain_item ''https://example.com/'')]
   \<and> stored_records
        (array_write (snd (ModelObject_getItems heap0 model0))
           (fst (ModelObject_getItems heap0 model0)) [1, 1]) model0
       = [Some (plain_item ''https://example.com/'')]
   \<and> ModelObject_getItemCount
        (array_write (snd (ModelObject_getItems heap0 model0))
           (fst (ModelObject_getItems heap0 model0)) [1, 1]) model0 = 1"
proof -
  have a: "allocated heap0 model0"
    by (simp add: allocated_def heap0_simps)
  have b: "ModelObject_getItems heap0 model0
             = (fst (ModelObject_getItems heap0 model0), snd (ModelObject_getItems heap0 model0))"
    by simp
  note t = getItems_returns_fresh_array[OF a b]
  have s: "stored_records heap0 model0 = [Some (plain_item ''https://example.com/'')]"
    by (simp add: stored_records_def array_records_def array_elems_def heap0_simps)
  have c: "ModelObject_getItemCount heap0 model0 = 1"
    by (simp add: ModelObject_getItemCount_def array_elems_def heap0_simps)
  have 1: "fst (ModelObject_getItems heap0 model0) = 2"
    by (simp add: getItems_heap0)
  have 2: "stored_records
        (array_write (snd (ModelObject_getItems heap0 model0))
           (fst (ModelObject_getItems heap0 model0)) [1, 1]) model0
       = [Some (plain_item ''https://example.com/'')]"
    using t s by metis
  have 3: "ModelObject_getItemCount
        (array_write (snd (ModelObject_getItems heap0 model0))
           (fst (ModelObject_getItems heap0 model0)) [1, 1]) model0 = 1"
    using t c by metis
  show ?thesis
    by (intro conjI a 1 s 2 3)
qed

text \<open>
  The claim as stated includes mutation of the records in the returned collection. After
  \<open>model.getItems()[0].loc = 'https://example.com/modified'\<close> the model holds the modified
  record.
\<close>

theorem getItems_shares_records:
  "stored_records heap0 model0 = [Some (plain_item ''https://example.com/'')]
   \<and> array_elems (snd (ModelObject_getItems heap0 model0))
        (fst (ModelObject_getItems heap0 model0)) = [1]
   \<and> stored_records
        (record_write (snd (ModelObject_getItems heap0 model0)) 1
           (plain_item ''https://example.com/modified'')) model0
       = [Some (plain_item ''https://example.com/modified'')]
   \<and> stored_records
        (record_write (snd (ModelObject_getItems heap0 model0)) 1
           (plain_item ''https://example.com/modified'')) model0
       \<noteq> stored_records heap0 model0"
proof -
  have s: "stored_records heap0 model0 = [Some (plain_item ''https://example.com/'')]"
    by (simp add: stored_records_def array_records_def array_elems_def heap0_simps)
  have e: "array_elems (snd (ModelObject_getItems heap0 model0))
        (fst (ModelObject_getItems heap0 model0)) = [1]"
    by (simp add: getItems_heap0 array_elems_def)
  have w: "stored_records
        (record_write (snd (ModelObject_getItems heap0 model0)) 1
           (plain_item ''https://example.com/modified'')) model0
       = [Some (plain_item ''https://example.com/modified'')]"
    by (simp add: getItems_heap0 stored_records_def array_records_def array_elems_def
        record_write_def heap0_simps)
  have n: "stored_records
        (record_write (snd (ModelObject_getItems heap0 model0)) 1
           (plain_item ''https://example.com/modified'')) model0
       \<noteq> stored_records heap0 model0"
    unfolding w s by (simp add: plain_item_def)
  show ?thesis
    by (intro conjI s e w n)
qed

section \<open>URL normalisation\<close>

lemma normalizeUrl_valid:
  assumes "isValidUrl P u" and "URL_new P u None = Some x"
  shows "normalizeUrl P u = URL_toString P (normalized x)"
proof -
  have "(if pathname x = [] \<or> pathname x = ''/'' then x\<lparr>fragment := None, pathname := ''/''\<rparr>
         else x\<lparr>fragment := None\<rparr>) = normalized x"
    by (simp add: normalized_def)
  then show ?thesis
    using assms by (simp add: normalizeUrl_def Let_def)
qed

lemma normalizeUrl_invalid: "\<not> isValidUrl P u \<Longrightarrow> normalizeUrl P u = u"
  by (simp add: normalizeUrl_def)

lemma isValidUrl_parses: "isValidUrl P u \<Longrightarrow> \<exists>x. URL_new P u None = Some x"
  by (auto simp: isValidUrl_def split: option.splits if_splits)

lemma normalized_idem: "normalized (normalized x) = normalized x"
  by (simp add: normalized_def)

text \<open>
  C8. On a platform whose URL parser undoes its serialiser, \<open>normalizeUrl\<close> is idempotent
  on every string. An invalid input is returned unchanged. A valid input is replaced by the
  serialisation of its parsed URL with the fragment removed and an empty path replaced by
  \<open>/\<close>; parsing the result gives that URL again, with the path otherwise, the query, the
  host and the protocol of the input.
\<close>

theorem normalizeUrl_idempotent:
  assumes "serializer_round_trip P"
  shows "normalizeUrl P (normalizeUrl P u) = normalizeUrl P u
    \<and> (\<not> isValidUrl P u \<longrightarrow> normalizeUrl P u = u)
    \<and> (\<forall>x. isValidUrl P u \<and> URL_new P u None = Some x \<longrightarrow>
          normalizeUrl P u = URL_toString P (normalized x)
          \<and> URL_new P (normalizeUrl P u) None = Some (normalized x)
          \<and> fragment (normalized x) = None
          \<and> pathname (normalized x) = (if pathname x = [] then ''/'' else pathname x)
          \<and> query (normalized x) = query x
          \<and> hostname (normalized x) = hostname x
          \<and> protocol (normalized x) = protocol x)"
proof -
  have idem: "normalizeUrl P (normalizeUrl P u) = normalizeUrl P u"
  proof (cases "isValidUrl P u")
    case False
    then show ?thesis by (simp add: normalizeUrl_invalid)
  next
    case True
    then obtain x where x: "URL_new P u None = Some x"
      using isValidUrl_parses by blast
    let ?n = "URL_toString P (normalized x)"
    have n: "normalizeUrl P u = ?n"
      using True x by (rule normalizeUrl_valid)
    have p: "URL_new P ?n None = Some (normalized x)"
      using assms True x unfolding serializer_round_trip_def by blast
    show ?thesis
    proof (cases "isValidUrl P ?n")
      case False
      then show ?thesis by (simp add: n normalizeUrl_invalid)
    next
      case True
      from normalizeUrl_valid[OF True p] show ?thesis
        by (simp add: n normalized_idem)
    qed
  qed
  have inv: "\<not> isValidUrl P u \<longrightarrow> normalizeUrl P u = u"
    by (simp add: normalizeUrl_invalid)
  have val: "normalizeUrl P u = URL_toString P (normalized x)
          \<and> URL_new P (normalizeUrl P u) None = Some (normalized x)
          \<and> fragment (normalized x) = None
          \<and> pathname (normalized x) = (if pathname x = [] then ''/'' else pathname x)
          \<and> query (normalized x) = query x
          \<and> hostname (normalized x) = hostname x
          \<and> protocol (normalized x) = protocol x"
    if "isValidUrl P u \<and> URL_new P u None = Some x" for x
  proof -
    from that have n: "normalizeUrl P u = URL_toString P (normalized x)"
      by (simp add: normalizeUrl_valid)
    have p: "URL_new P (URL_toString P (normalized x)) None = Some (normalized x)"
      using assms that unfolding serializer_round_trip_def by blast
    show ?thesis
      by (simp add: n p) (simp add: normalized_def)
  qed
  show ?thesis
    using idem inv val by blast
qed

lemma sample_round_trip: "serializer_round_trip sample_platform"
  unfolding serializer_round_trip_def
proof (intro allI impI)
  fix u x
  assume "isValidUrl sample_platform u \<and> URL_new sample_platform u None = Some x"
  then have a: "URL_new sample_platform u None = Some x" ..
  then have p: "prefix ''https://example.com/'' u"
    by (auto simp: sample_platform_def sample_URL_new_def split: if_splits)
  then obtain r where u: "u = ''https://example.com/'' @ r"
    by (auto simp: prefix_def)
  let ?t = "takeWhile (\<lambda>c. c \<noteq> CHR ''#'') r"
  have n: "normalized x = \<lparr>protocol = ''https:'', username = [], password = [],
              hostname = ''example.com'', port = [], pathname = CHR ''/'' # ?t, query = None,
              fragment = None\<rparr>"
    using a by (auto simp: sample_platform_def sample_URL_new_def u Let_def normalized_def)
  have s: "URL_toString sample_platform (normalized x) = ''https://example.com/'' @ ?t"
    by (simp add: n sample_platform_def sample_URL_toString_def)
  have h: "CHR ''#'' \<notin> set ?t"
    by (auto dest: set_takeWhileD)
  have "URL_new sample_platform (URL_toString sample_platform (normalized x)) None
          = sample_URL_new (''https://example.com/'' @ ?t) None"
    by (simp only: s) (simp add: sample_platform_def)
  also have "\<dots> = Some (normalized x)"
    unfolding n by (rule sample_URL_new_plain[OF h])
  finally show "URL_new sample_platform (URL_toString sample_platform (normalized x)) None
          = Some (normalized x)" .
qed

theorem normalizeUrl_idempotent_witness:
  "serializer_round_trip sample_platform
   \<and> isValidUrl sample_platform ''https://example.com/a#b''
   \<and> normalizeUrl sample_platform ''https://example.com/a#b'' = ''https://example.com/a''
   \<and> normalizeUrl sample_platform (normalizeUrl sample_platform ''https://example.com/a#b'')
        = normalizeUrl sample_platform ''https://example.com/a#b''
   \<and> \<not> isValidUrl sample_platform ''not a url''
   \<and> normalizeUrl sample_platform ''not a url'' = ''not a url''"
proof -
  note t = normalizeUrl_idempotent[OF sample_round_trip]
  have v: "isValidUrl sample_platform ''https://example.com/a#b''"
    by (simp add: isValidUrl_def sample_platform_def sample_URL_new_def truthy_def)
  have n: "normalizeUrl sample_platform ''https://example.com/a#b'' = ''https://example.com/a''"
    by (simp add: normalizeUrl_def v)
      (simp add: sample_platform_def sample_URL_new_def sample_URL_toString_def)
  have i: "normalizeUrl sample_platform (normalizeUrl sample_platform ''https://example.com/a#b'')
        = normalizeUrl sample_platform ''https://example.com/a#b''"
    using t[of "''https://example.com/a#b''"] by blast
  have w: "\<not> isValidUrl sample_platform ''not a url''"
    by (simp add: isValidUrl_def sample_platform_def sample_URL_new_def truthy_def)
  have u: "normalizeUrl sample_platform ''not a url'' = ''not a url''"
    using t[of "''not a url''"] w by blast
  show ?thesis
    by (intro conjI sample_round_trip v n i w u)
qed

end
